theory Spec2Isabelle
  imports Complex_Main "HOL-Library.Word" "HOL-Library.Multiset"
begin

unbundle bit_operations_syntax

section \<open>JavaScript values shared by the three programs\<close>

text \<open>
  The repository holds three stand-alone scripts that implement the same automaton:
  the flat command-line script (definitions prefixed \<open>flat_\<close>), the ledger script
  \<open>CPUX_IS_explicit_CA.js\<close> (prefixed \<open>cpux_\<close>) and the class-based script
  (\<open>Pulse\<close>, \<open>Intention\<close>, \<open>Field\<close>, \<open>ObjectField\<close>, \<open>Visitor\<close>, \<open>DN_*\<close>).
  Cell values are JavaScript numbers that only ever hold integers; they are \<open>int\<close> here.
  Indices, sizes and step counts are \<open>nat\<close>.
\<close>

type_synonym row = "int list"

text \<open>Truthiness of a number: every number but 0 (and NaN, which never arises).\<close>

definition truthy :: "int \<Rightarrow> bool" where
  "truthy v = (v \<noteq> 0)"

text \<open>Decimal rendering of a number inside a template literal.\<close>

fun show_nat :: "nat \<Rightarrow> string" where
  "show_nat n =
     (if n < 10 then [char_of (48 + n)]
      else show_nat (n div 10) @ [char_of (48 + n mod 10)])"

declare show_nat.simps [simp del]

definition js_str :: "int \<Rightarrow> string" where
  "js_str k = (if k < 0 then CHR ''-'' # show_nat (nat (- k)) else show_nat (nat k))"

text \<open>
  \<open>xs[i] = v\<close> on an array: an index below the length overwrites, an index at or beyond
  the length extends the array. The holes an index beyond the length would leave are only
  ever tested for truthiness by the programs, where a hole behaves as 0.
\<close>

definition js_assign :: "row \<Rightarrow> nat \<Rightarrow> int \<Rightarrow> row" where
  "js_assign xs i v =
     (if i < length xs then xs[i := v] else xs @ replicate (i - length xs) 0 @ [v])"

text \<open>
  The random source: \<open>Math.random\<close>, or the \<open>rng\<close> argument that defaults to it. Its
  state is the number of draws made so far; \<open>draws\<close> is the sequence it will produce.
\<close>

record rng =
  draws :: "nat \<Rightarrow> rat"
  drawn :: nat

definition random :: "rng \<Rightarrow> rat \<times> rng" where
  "random g = (draws g (drawn g), g\<lparr>drawn := drawn g + 1\<rparr>)"

text \<open>
  \<open>ruleFn\<close> is the same expression in all three scripts:
  \<^verbatim>\<open>(ruleNumber >> ((l << 2) | (c << 1) | r)) & 1\<close>.
  The bitwise operators work on the 32-bit two's complement image of their operands, and
  \<open>>>\<close> is the sign-propagating shift by the low five bits of its right operand.
\<close>

definition ruleFn :: "int \<Rightarrow> int \<Rightarrow> int \<Rightarrow> int \<Rightarrow> int" where
  "ruleFn ruleNumber l c r =
     (let idx = push_bit 2 (word_of_int l :: 32 word) OR push_bit 1 (word_of_int c)
                OR word_of_int r
      in sint (signed_drop_bit (unat idx mod 32) (word_of_int ruleNumber :: 32 word) AND 1))"

section \<open>The flat script\<close>

text \<open>
  \<open>initRow(size, mode)\<close>: \<open>"single"\<close> sets the middle cell, every other mode draws each
  cell with density 0.1.
\<close>

definition flat_initRow :: "nat \<Rightarrow> string \<Rightarrow> rng \<Rightarrow> row \<times> rng" where
  "flat_initRow sz mode g =
     (if mode = ''single'' then (js_assign (replicate sz 0) (sz div 2) 1, g)
      else fold (\<lambda>i (row, g). let (d, g') = random g
                                in (js_assign row i (if d < 1 / 10 then 1 else 0), g'))
             [0..<sz] (replicate sz 0, g))"

text \<open>
  One row of \<open>runCA\<close>'s loop. The index \<open>(i - 1 + size) % size\<close> is written
  \<open>(i + size - 1) mod size\<close> because subtraction on \<open>nat\<close> stops at 0. All three reads are
  in range: every row the loop reads has \<open>size\<close> cells, and the body runs only if
  \<open>0 < size\<close>.
\<close>

definition flat_next :: "(int \<Rightarrow> int \<Rightarrow> int \<Rightarrow> int) \<Rightarrow> nat \<Rightarrow> row \<Rightarrow> row" where
  "flat_next f sz prev =
     map (\<lambda>i. f (prev ! ((i + sz - 1) mod sz)) (prev ! i) (prev ! ((i + 1) mod sz))) [0..<sz]"

text \<open>The rows \<open>grid[1]\<close> .. \<open>grid[n]\<close> computed from \<open>prev = grid[0]\<close>.\<close>

fun flat_runCA_loop :: "(int \<Rightarrow> int \<Rightarrow> int \<Rightarrow> int) \<Rightarrow> nat \<Rightarrow> nat \<Rightarrow> row \<Rightarrow> row list" where
  "flat_runCA_loop f sz 0 prev = []"
| "flat_runCA_loop f sz (Suc n) prev =
     (let next = flat_next f sz prev in next # flat_runCA_loop f sz n next)"

text \<open>
  \<open>runCA\<close>. The grid is allocated with \<open>steps\<close> rows and \<open>grid[0]\<close> is then assigned, so
  with \<open>steps = 0\<close> the grid still holds the seed row; the loop fills rows
  \<open>1 .. steps - 1\<close>.
\<close>

definition flat_runCA :: "int \<Rightarrow> nat \<Rightarrow> nat \<Rightarrow> string \<Rightarrow> rng \<Rightarrow> row list \<times> rng" where
  "flat_runCA rule sz steps init g =
     (let (row0, g') = flat_initRow sz init g
      in (row0 # flat_runCA_loop (ruleFn rule) sz (steps - 1) row0, g'))"

text \<open>\<open>cpiPropose\<close>; the pattern list may be absent (\<open>!cpiPatterns\<close>).\<close>

definition cpiPropose :: "int \<Rightarrow> int \<Rightarrow> int \<Rightarrow> string list option \<Rightarrow> int" where
  "cpiPropose l c r cpiPatterns =
     (case cpiPatterns of
        None \<Rightarrow> 0
      | Some ps \<Rightarrow>
          if length ps = 0 then 0
          else if js_str l @ js_str c @ js_str r \<in> set ps then 1 else 0)"

text \<open>The variables phase A of \<open>runISVariant\<close> writes.\<close>

record phaseA =
  proposal :: row
  reflection :: row
  consecOnes :: "nat list"
  rnd :: rng

text \<open>The body of the phase A loop at cell \<open>i\<close>.\<close>

definition flat_phaseA_cell ::
  "nat \<Rightarrow> row \<Rightarrow> string list option \<Rightarrow> rat \<Rightarrow> int \<Rightarrow> nat \<Rightarrow> phaseA \<Rightarrow> phaseA" where
  "flat_phaseA_cell sz prev cpiPatterns injectProb reflectionHold i s =
     (let l = prev ! ((i + sz - 1) mod sz);
          c = prev ! i;
          r = prev ! ((i + 1) mod sz);
          p1 = (if truthy (cpiPropose l c r cpiPatterns) then js_assign (proposal s) i 1
                else proposal s);
          (d, g') = random (rnd s);
          p2 = (if d < injectProb then js_assign p1 i 1 else p1);
          k = (if truthy c then consecOnes s ! i + 1 else 0);
          co = (consecOnes s)[i := k];
          rf = (if reflectionHold \<le> int k
                then js_assign (reflection s)
                       ((if i mod 2 = 0 then i + 1 + sz else i + sz - 1) mod sz) 1
                else reflection s)
      in \<lparr>proposal = p2, reflection = rf, consecOnes = co, rnd = g'\<rparr>)"

definition flat_phaseA ::
  "nat \<Rightarrow> row \<Rightarrow> string list option \<Rightarrow> rat \<Rightarrow> int \<Rightarrow> nat list \<Rightarrow> rng \<Rightarrow> phaseA" where
  "flat_phaseA sz prev cpiPatterns injectProb reflectionHold consec g =
     fold (flat_phaseA_cell sz prev cpiPatterns injectProb reflectionHold) [0..<sz]
       \<lparr>proposal = replicate sz 0, reflection = replicate sz 0, consecOnes = consec, rnd = g\<rparr>"

text \<open>Phase B: 1 where a proposal or a reflection is marked, the rule elsewhere.\<close>

definition flat_phaseB ::
  "(int \<Rightarrow> int \<Rightarrow> int \<Rightarrow> int) \<Rightarrow> nat \<Rightarrow> row \<Rightarrow> row \<Rightarrow> row \<Rightarrow> row" where
  "flat_phaseB f sz prev prop rfl =
     map (\<lambda>i. if truthy (prop ! i) \<or> truthy (rfl ! i) then 1
               else f (prev ! ((i + sz - 1) mod sz)) (prev ! i) (prev ! ((i + 1) mod sz)))
       [0..<sz]"

fun flat_runISVariant_loop ::
  "(int \<Rightarrow> int \<Rightarrow> int \<Rightarrow> int) \<Rightarrow> nat \<Rightarrow> string list option \<Rightarrow> rat \<Rightarrow> int \<Rightarrow>
   nat \<Rightarrow> row \<Rightarrow> nat list \<Rightarrow> rng \<Rightarrow> row list \<times> rng" where
  "flat_runISVariant_loop f sz cpiPatterns injectProb reflectionHold 0 prev consec g = ([], g)"
| "flat_runISVariant_loop f sz cpiPatterns injectProb reflectionHold (Suc n) prev consec g =
     (let a = flat_phaseA sz prev cpiPatterns injectProb reflectionHold consec g;
          next = flat_phaseB f sz prev (proposal a) (reflection a);
          (rows, g') = flat_runISVariant_loop f sz cpiPatterns injectProb reflectionHold n
                         next (consecOnes a) (rnd a)
      in (next # rows, g'))"

definition flat_runISVariant ::
  "int \<Rightarrow> nat \<Rightarrow> nat \<Rightarrow> string \<Rightarrow> string list option \<Rightarrow> rat \<Rightarrow> int \<Rightarrow> rng \<Rightarrow>
   row list \<times> rng" where
  "flat_runISVariant rule sz steps init cpiPatterns injectProb reflectionHold g =
     (let (row0, g0) = flat_initRow sz init g;
          (rows, g') = flat_runISVariant_loop (ruleFn rule) sz cpiPatterns injectProb
                         reflectionHold (steps - 1) row0 (replicate sz 0) g0
      in (row0 # rows, g'))"

section \<open>The ledger script\<close>

text \<open>
  \<open>initRow(size, initMode, rng)\<close>: \<open>'single'\<close>, \<open>'random'\<close>, and all cells 0 for any
  other mode.
\<close>

definition cpux_initRow :: "nat \<Rightarrow> string \<Rightarrow> rng \<Rightarrow> row \<times> rng" where
  "cpux_initRow sz initMode g =
     (if initMode = ''single'' then (js_assign (replicate sz 0) (sz div 2) 1, g)
      else if initMode = ''random''
      then fold (\<lambda>i (row, g). let (d, g') = random g
                                in (js_assign row i (if d < 1 / 10 then 1 else 0), g'))
             [0..<sz] (replicate sz 0, g)
      else (replicate sz 0, g))"

text \<open>\<open>neighborhood3(prev, i)\<close> returns \<open>{l, c, r, nb}\<close>; the reads are in range for
  \<open>i < prev.length\<close>.\<close>

definition neighborhood3 :: "row \<Rightarrow> nat \<Rightarrow> int \<times> int \<times> int \<times> string" where
  "neighborhood3 prev i =
     (let n = length prev;
          l = prev ! ((i + n - 1) mod n);
          c = prev ! i;
          r = prev ! ((i + 1) mod n)
      in (l, c, r, js_str l @ js_str c @ js_str r))"

text \<open>
  A pulse of the ledger. \<open>details\<close> is one of the three object literals the script
  builds; \<open>createdAt\<close>, a wall-clock timestamp that nothing reads, is left out.
\<close>

datatype details =
    PatternMatch string
  | RandomInjection
  | Reflected nat nat int

record xpulse =
  passIndex :: nat
  targetIndex :: nat
  pulseKind :: string
  sourceDN :: string
  details :: details

record xintention =
  x_fromDN :: string
  x_toObject :: string
  x_pulse :: xpulse

record xvisitor =
  fieldSnapshot :: "row option"
  incomingIntentions :: "xintention list"

definition makeVisitor :: xvisitor where
  "makeVisitor = \<lparr>fieldSnapshot = None, incomingIntentions = []\<rparr>"

definition absorbIntentionsIntoLedger :: "xvisitor \<Rightarrow> xpulse list \<Rightarrow> xvisitor \<times> xpulse list" where
  "absorbIntentionsIntoLedger visitor pulseLedger =
     (visitor\<lparr>incomingIntentions := []\<rparr>,
      pulseLedger @ map x_pulse (incomingIntentions visitor))"

definition buildOverrideMapForPass :: "xpulse list \<Rightarrow> nat \<Rightarrow> nat \<Rightarrow> row" where
  "buildOverrideMapForPass pulseLedger pass sz =
     fold (\<lambda>p override. if passIndex p \<noteq> pass then override
                          else js_assign override (targetIndex p) 1)
       pulseLedger (replicate sz 0)"

definition applyBaseRule :: "int \<Rightarrow> row \<Rightarrow> row" where
  "applyBaseRule ruleNumber prevSnapshot =
     map (\<lambda>i. case neighborhood3 prevSnapshot i of (l, c, r, nb) \<Rightarrow> ruleFn ruleNumber l c r)
       [0..<length prevSnapshot]"

text \<open>\<open>mergeOverride\<close>: a cell whose override entry is truthy becomes 1; an index beyond
  the override array reads \<open>undefined\<close>, which is falsy.\<close>

definition mergeOverride :: "row \<Rightarrow> row \<Rightarrow> row" where
  "mergeOverride baselineNext override =
     map (\<lambda>i. if i < length override \<and> truthy (override ! i) then 1 else baselineNext ! i)
       [0..<length baselineNext]"

text \<open>\<open>String.prototype.trim\<close> on the strings representable here.\<close>

definition js_space :: "char \<Rightarrow> bool" where
  "js_space ch = (ch \<in> {CHR '' '', CHR 0x09, CHR 0x0A, CHR 0x0B, CHR 0x0C, CHR 0x0D, CHR 0xA0})"

definition js_trim :: "string \<Rightarrow> string" where
  "js_trim s = rev (dropWhile js_space (rev (dropWhile js_space s)))"

text \<open>\<open>new Set((cpiPatterns || []).map(s => s.trim()).filter(Boolean))\<close>; only
  membership and emptiness of the set are used.\<close>

definition patternSet :: "string list option \<Rightarrow> string list" where
  "patternSet cpiPatterns =
     filter (\<lambda>s. s \<noteq> []) (map js_trim (case cpiPatterns of None \<Rightarrow> [] | Some ps \<Rightarrow> ps))"

text \<open>The body of \<open>DN_CPI.emitIntentions\<close> at cell \<open>i\<close>: the pattern test, then one draw
  for novelty, which overrides the kind.\<close>

definition DN_CPI_cell ::
  "string list \<Rightarrow> rat \<Rightarrow> nat \<Rightarrow> row \<Rightarrow> string \<Rightarrow> nat \<Rightarrow> xvisitor \<times> rng \<Rightarrow> xvisitor \<times> rng" where
  "DN_CPI_cell pats injectProb pass prevSnapshot objectId i vg =
     (case vg of (visitor, g) \<Rightarrow>
        (case neighborhood3 prevSnapshot i of (l, c, r, nb) \<Rightarrow>
           let k1 = (if length pats > 0 \<and> nb \<in> set pats
                     then Some (''proposal'', PatternMatch nb) else None);
               (d, g') = random g;
               k2 = (if d < injectProb then Some (''novelty'', RandomInjection) else k1)
           in (case k2 of
                 None \<Rightarrow> (visitor, g')
               | Some (kind, det) \<Rightarrow>
                   (visitor\<lparr>incomingIntentions := incomingIntentions visitor @
                      [\<lparr>x_fromDN = ''DN_CPI'', x_toObject = objectId,
                        x_pulse = \<lparr>passIndex = pass, targetIndex = i, pulseKind = kind,
                                   sourceDN = ''DN_CPI'', details = det\<rparr>\<rparr>]\<rparr>, g'))))"

definition DN_CPI_emitIntentions ::
  "string list \<Rightarrow> rat \<Rightarrow> nat \<Rightarrow> row \<Rightarrow> string \<Rightarrow> xvisitor \<Rightarrow> rng \<Rightarrow> xvisitor \<times> rng" where
  "DN_CPI_emitIntentions pats injectProb pass prevSnapshot objectId visitor g =
     fold (DN_CPI_cell pats injectProb pass prevSnapshot objectId)
       [0..<length prevSnapshot] (visitor, g)"

text \<open>The body of \<open>DN_REFLECT.emitIntentions\<close> at cell \<open>i\<close>.\<close>

definition DN_REFLECT_cell ::
  "int \<Rightarrow> nat \<Rightarrow> row \<Rightarrow> string \<Rightarrow> nat \<Rightarrow> xvisitor \<times> nat list \<Rightarrow> xvisitor \<times> nat list" where
  "DN_REFLECT_cell reflectionHold pass prevSnapshot objectId i vc =
     (case vc of (visitor, consec) \<Rightarrow>
        let sz = length prevSnapshot;
            c = prevSnapshot ! i;
            k = (if truthy c then consec ! i + 1 else 0);
            consec' = consec[i := k]
        in if reflectionHold \<le> int k
           then let dir = (if i mod 2 = 0 then 1 else - 1 :: int);
                    target = (if i mod 2 = 0 then i + 1 + sz else i + sz - 1) mod sz
                in (visitor\<lparr>incomingIntentions := incomingIntentions visitor @
                      [\<lparr>x_fromDN = ''DN_REFLECT'', x_toObject = objectId,
                        x_pulse = \<lparr>passIndex = pass, targetIndex = target,
                                   pulseKind = ''reflection'', sourceDN = ''DN_REFLECT'',
                                   details = Reflected i k dir\<rparr>\<rparr>]\<rparr>, consec')
           else (visitor, consec'))"

text \<open>\<open>DN_REFLECT.emitIntentions\<close>; the counters are created on the first call.\<close>

definition DN_REFLECT_emitIntentions ::
  "int \<Rightarrow> nat \<Rightarrow> row \<Rightarrow> string \<Rightarrow> xvisitor \<Rightarrow> nat list option \<Rightarrow> xvisitor \<times> nat list option" where
  "DN_REFLECT_emitIntentions reflectionHold pass prevSnapshot objectId visitor consecOpt =
     (let consec = (case consecOpt of None \<Rightarrow> replicate (length prevSnapshot) 0 | Some cs \<Rightarrow> cs);
          (visitor', consec') =
             fold (DN_REFLECT_cell reflectionHold pass prevSnapshot objectId)
               [0..<length prevSnapshot] (visitor, consec)
      in (visitor', Some consec'))"

fun runCPUX_CA_loop :: "int \<Rightarrow> nat \<Rightarrow> row \<Rightarrow> row list" where
  "runCPUX_CA_loop ruleNumber 0 prev = []"
| "runCPUX_CA_loop ruleNumber (Suc n) prev =
     (let next = applyBaseRule ruleNumber prev in next # runCPUX_CA_loop ruleNumber n next)"

definition runCPUX_CA :: "int \<Rightarrow> nat \<Rightarrow> nat \<Rightarrow> string \<Rightarrow> rng \<Rightarrow> row list \<times> rng" where
  "runCPUX_CA ruleNumber sz steps initMode g =
     (let (row0, g') = cpux_initRow sz initMode g
      in (row0 # runCPUX_CA_loop ruleNumber (steps - 1) row0, g'))"

text \<open>The state the pass loop of \<open>runCPUX_ISVariant\<close> carries from one pass to the next.\<close>

record xstate =
  visitor :: xvisitor
  pulseLedger :: "xpulse list"
  reflectMemory :: "nat list option"
  source :: rng

text \<open>One pass: the two design nodes, the gatekeeper, the baseline, the override map and
  the merge, in the script's order.\<close>

definition cpux_pass ::
  "int \<Rightarrow> nat \<Rightarrow> string list \<Rightarrow> rat \<Rightarrow> int \<Rightarrow> nat \<Rightarrow> row \<Rightarrow> xstate \<Rightarrow> row \<times> xstate" where
  "cpux_pass ruleNumber sz pats injectProb reflectionHold pass prev s =
     (let v1 = (visitor s)\<lparr>fieldSnapshot := Some prev\<rparr>;
          (v2, g2) = DN_CPI_emitIntentions pats injectProb pass prev ''O_IS'' v1 (source s);
          (v3, co) = DN_REFLECT_emitIntentions reflectionHold pass prev ''O_IS'' v2
                       (reflectMemory s);
          (v4, ledger) = absorbIntentionsIntoLedger v3 (pulseLedger s);
          baselineNext = applyBaseRule ruleNumber prev;
          override = buildOverrideMapForPass ledger pass sz
      in (mergeOverride baselineNext override,
          \<lparr>visitor = v4, pulseLedger = ledger, reflectMemory = co, source = g2\<rparr>))"

fun runCPUX_ISVariant_loop ::
  "int \<Rightarrow> nat \<Rightarrow> string list \<Rightarrow> rat \<Rightarrow> int \<Rightarrow> nat \<Rightarrow> nat \<Rightarrow> row \<Rightarrow> xstate \<Rightarrow>
   row list \<times> xstate" where
  "runCPUX_ISVariant_loop ruleNumber sz pats injectProb reflectionHold pass 0 prev s = ([], s)"
| "runCPUX_ISVariant_loop ruleNumber sz pats injectProb reflectionHold pass (Suc n) prev s =
     (let (next, s1) = cpux_pass ruleNumber sz pats injectProb reflectionHold pass prev s;
          (rows, s2) = runCPUX_ISVariant_loop ruleNumber sz pats injectProb reflectionHold
                         (pass + 1) n next s1
      in (next # rows, s2))"

text \<open>\<open>runCPUX_ISVariant\<close> returns the grid and the ledger; the random source it leaves
  behind is returned with them.\<close>

definition runCPUX_ISVariant ::
  "int \<Rightarrow> nat \<Rightarrow> nat \<Rightarrow> string \<Rightarrow> string list option \<Rightarrow> rat \<Rightarrow> int \<Rightarrow> rng \<Rightarrow>
   row list \<times> xpulse list \<times> rng" where
  "runCPUX_ISVariant ruleNumber sz steps initMode cpiPatterns injectProb reflectionHold g =
     (let (row0, g0) = cpux_initRow sz initMode g;
          (rows, s) = runCPUX_ISVariant_loop ruleNumber sz (patternSet cpiPatterns) injectProb
                        reflectionHold 1 (steps - 1) row0
                        \<lparr>visitor = makeVisitor, pulseLedger = [], reflectMemory = None,
                         source = g0\<rparr>
      in (row0 # rows, pulseLedger s, source s))"

section \<open>The class-based script\<close>

text \<open>Values of the \<open>meta\<close> object literals: numbers and strings.\<close>

datatype jsval = Num int | Str string

text \<open>
  \<open>Pulse\<close> and \<open>Intention\<close> are frozen on construction, so they are plain values.
  \<open>response\<close> is \<open>null\<close> in every pulse the script builds.
\<close>

record pulse =
  pid :: string
  pvalue :: int
  response :: "jsval option"
  meta :: "(string \<times> jsval) list"

record intention =
  fromDN :: string
  toObject :: string
  kind :: string
  pulses :: "pulse list"
  imeta :: "(string \<times> jsval) list"

text \<open>\<open>Field\<close>: the size and the current pass state, a \<open>Map\<close> from pulse id to pulse.\<close>

record field =
  fsize :: nat
  current :: "string \<rightharpoonup> pulse"

definition new_Field :: "nat \<Rightarrow> field" where
  "new_Field sz = \<lparr>fsize = sz, current = Map.empty\<rparr>"

text \<open>The pulse id \<^verbatim>\<open>`cell:${i}`\<close>.\<close>

definition cell_id :: "nat \<Rightarrow> string" where
  "cell_id i = ''cell:'' @ show_nat i"

definition setNextState :: "field \<Rightarrow> (string \<rightharpoonup> pulse) \<Rightarrow> field" where
  "setNextState f nextPulseMap = f\<lparr>current := nextPulseMap\<rparr>"

definition readCell :: "field \<Rightarrow> nat \<Rightarrow> int" where
  "readCell f i = (case current f (cell_id i) of None \<Rightarrow> 0 | Some p \<Rightarrow> pvalue p)"

definition snapshotRow :: "field \<Rightarrow> row" where
  "snapshotRow f = map (readCell f) [0..<fsize f]"

record objectField =
  objectId :: string
  ofield :: field
  precedence :: "string list"

text \<open>The buckets \<open>byKind\<close>: one empty \<open>Map\<close> per kind of the precedence list.\<close>

definition emptyBuckets :: "string list \<Rightarrow> (string \<rightharpoonup> (string \<rightharpoonup> pulse))" where
  "emptyBuckets prec = fold (\<lambda>k byKind. byKind(k \<mapsto> Map.empty)) prec Map.empty"

text \<open>One intention: skipped unless addressed to this object and of a known kind; its
  pulses are stored under their ids, a later pulse replacing an earlier one.\<close>

definition bucketIntention ::
  "string \<Rightarrow> intention \<Rightarrow> (string \<rightharpoonup> (string \<rightharpoonup> pulse)) \<Rightarrow> (string \<rightharpoonup> (string \<rightharpoonup> pulse))" where
  "bucketIntention oid it byKind =
     (if toObject it \<noteq> oid then byKind
      else case byKind (kind it) of
             None \<Rightarrow> byKind
           | Some m \<Rightarrow> byKind(kind it \<mapsto> fold (\<lambda>p m. m(pid p \<mapsto> p)) (pulses it) m))"

text \<open>The inner loop over the precedence list: the first kind whose bucket has the id.\<close>

fun chosen :: "(string \<rightharpoonup> (string \<rightharpoonup> pulse)) \<Rightarrow> string list \<Rightarrow> string \<Rightarrow> pulse option" where
  "chosen byKind [] p = None"
| "chosen byKind (k # ks) p =
     (case byKind k of
        None \<Rightarrow> chosen byKind ks p
      | Some m \<Rightarrow> (case m p of None \<Rightarrow> chosen byKind ks p | Some q \<Rightarrow> Some q))"

definition defaultPulse :: "string \<Rightarrow> pulse" where
  "defaultPulse p = \<lparr>pid = p, pvalue = 0, response = None, meta = []\<rparr>"

definition absorbIntentionsAndAdvance :: "objectField \<Rightarrow> intention list \<Rightarrow> objectField" where
  "absorbIntentionsAndAdvance obj intentions =
     (let byKind = fold (bucketIntention (objectId obj)) intentions
                     (emptyBuckets (precedence obj));
          nextPulseMap =
            fold (\<lambda>i m. let p = cell_id i
                         in m(p \<mapsto> (case chosen byKind (precedence obj) p of
                                        None \<Rightarrow> defaultPulse p
                                      | Some q \<Rightarrow> q)))
              [0..<fsize (ofield obj)] Map.empty
      in obj\<lparr>ofield := setNextState (ofield obj) nextPulseMap\<rparr>)"

text \<open>
  The design nodes. Each holds a reference to the field it reads; \<open>emitIntentions\<close> takes
  that field as an argument here. \<open>DN_reflect\<close> owns its counters, \<open>DN_inject\<close> its random
  source (by default the global one).
\<close>

definition DN_rule_emitIntentions :: "string \<Rightarrow> string \<Rightarrow> int \<Rightarrow> field \<Rightarrow> nat \<Rightarrow> intention list" where
  "DN_rule_emitIntentions dnId oid ruleNumber f pass =
     (let sz = fsize f;
          ps = map (\<lambda>i. let l = readCell f ((i + sz - 1) mod sz);
                             c = readCell f i;
                             r = readCell f ((i + 1) mod sz)
                         in \<lparr>pid = cell_id i, pvalue = ruleFn ruleNumber l c r, response = None,
                             meta = [(''src'', Str ''DN_rule''), (''passIndex'', Num (int pass))]\<rparr>)
                 [0..<sz]
      in [\<lparr>fromDN = dnId, toObject = oid, kind = ''baseline'', pulses = ps,
           imeta = [(''passIndex'', Num (int pass))]\<rparr>])"

definition DN_cpi_emitIntentions ::
  "string \<Rightarrow> string \<Rightarrow> string list \<Rightarrow> field \<Rightarrow> nat \<Rightarrow> intention list" where
  "DN_cpi_emitIntentions dnId oid cpiPatterns f pass =
     (let sz = fsize f;
          ps = concat (map (\<lambda>i. let l = readCell f ((i + sz - 1) mod sz);
                                     c = readCell f i;
                                     r = readCell f ((i + 1) mod sz);
                                     nb = js_str l @ js_str c @ js_str r
                                 in if nb \<in> set cpiPatterns
                                    then [\<lparr>pid = cell_id i, pvalue = 1, response = None,
                                           meta = [(''src'', Str ''DN_cpi''), (''nb'', Str nb),
                                                   (''passIndex'', Num (int pass))]\<rparr>]
                                    else [])
                 [0..<sz])
      in if length ps = 0 then []
         else [\<lparr>fromDN = dnId, toObject = oid, kind = ''proposal'', pulses = ps,
                 imeta = [(''passIndex'', Num (int pass)), (''note'', Str ''CPI proposals'')]\<rparr>])"

definition DN_inject_emitIntentions ::
  "string \<Rightarrow> string \<Rightarrow> rat \<Rightarrow> field \<Rightarrow> nat \<Rightarrow> rng \<Rightarrow> intention list \<times> rng" where
  "DN_inject_emitIntentions dnId oid injectProb f pass g =
     (if injectProb \<le> 0 then ([], g)
      else
        let (ps, g') =
              fold (\<lambda>i (ps, g). let (d, g') = random g
                                 in if d < injectProb
                                    then (ps @ [\<lparr>pid = cell_id i, pvalue = 1, response = None,
                                                 meta = [(''src'', Str ''DN_inject''),
                                                         (''passIndex'', Num (int pass))]\<rparr>], g')
                                    else (ps, g'))
                [0..<fsize f] ([], g)
        in if length ps = 0 then ([], g')
           else ([\<lparr>fromDN = dnId, toObject = oid, kind = ''proposal'', pulses = ps,
                   imeta = [(''passIndex'', Num (int pass)), (''note'', Str ''novelty injection'')]\<rparr>],
                 g'))"

text \<open>The body of \<open>DN_reflect.emitIntentions\<close>' loop at cell \<open>i\<close>.\<close>

definition DN_reflect_cell ::
  "int \<Rightarrow> field \<Rightarrow> nat \<Rightarrow> nat \<Rightarrow> pulse list \<times> nat list \<Rightarrow> pulse list \<times> nat list" where
  "DN_reflect_cell reflectionHold f pass i pc =
     (case pc of (ps, consec) \<Rightarrow>
        let sz = fsize f;
            c = readCell f i;
            k = (if truthy c then consec ! i + 1 else 0);
            consec' = consec[i := k]
        in if reflectionHold \<le> int k
           then let target = (if i mod 2 = 0 then i + 1 + sz else i + sz - 1) mod sz
                in (ps @ [\<lparr>pid = cell_id target, pvalue = 1, response = None,
                           meta = [(''src'', Str ''DN_reflect''), (''from'', Num (int i)),
                                   (''passIndex'', Num (int pass))]\<rparr>], consec')
           else (ps, consec'))"

text \<open>\<open>DN_reflect.emitIntentions\<close>: a hold of \<open>1e9\<close> or more returns at once, before the
  counters are touched.\<close>

definition DN_reflect_emitIntentions ::
  "string \<Rightarrow> string \<Rightarrow> int \<Rightarrow> field \<Rightarrow> nat \<Rightarrow> nat list \<Rightarrow> intention list \<times> nat list" where
  "DN_reflect_emitIntentions dnId oid reflectionHold f pass consec =
     (if 1000000000 \<le> reflectionHold then ([], consec)
      else
        let (ps, consec') = fold (DN_reflect_cell reflectionHold f pass) [0..<fsize f] ([], consec)
        in if length ps = 0 then ([], consec')
           else ([\<lparr>fromDN = dnId, toObject = oid, kind = ''reflection'', pulses = ps,
                   imeta = [(''passIndex'', Num (int pass))]\<rparr>], consec'))"

text \<open>The four node classes as one type, for the visitor's list of nodes. A
  \<open>DN_reflect\<close> is constructed with one zero counter per cell of its field.\<close>

datatype dn =
    DN_rule string string int
  | DN_cpi string string "string list"
  | DN_inject string string rat
  | DN_reflect string string int "nat list"

definition new_DN_reflect :: "string \<Rightarrow> string \<Rightarrow> field \<Rightarrow> int \<Rightarrow> dn" where
  "new_DN_reflect dnId oid f reflectionHold =
     DN_reflect dnId oid reflectionHold (replicate (fsize f) 0)"

fun emitIntentions :: "field \<Rightarrow> nat \<Rightarrow> dn \<Rightarrow> rng \<Rightarrow> intention list \<times> dn \<times> rng" where
  "emitIntentions f pass (DN_rule dnId oid ruleNumber) g =
     (DN_rule_emitIntentions dnId oid ruleNumber f pass, DN_rule dnId oid ruleNumber, g)"
| "emitIntentions f pass (DN_cpi dnId oid pats) g =
     (DN_cpi_emitIntentions dnId oid pats f pass, DN_cpi dnId oid pats, g)"
| "emitIntentions f pass (DN_inject dnId oid injectProb) g =
     (case DN_inject_emitIntentions dnId oid injectProb f pass g of
        (its, g') \<Rightarrow> (its, DN_inject dnId oid injectProb, g'))"
| "emitIntentions f pass (DN_reflect dnId oid reflectionHold consec) g =
     (case DN_reflect_emitIntentions dnId oid reflectionHold f pass consec of
        (its, consec') \<Rightarrow> (its, DN_reflect dnId oid reflectionHold consec', g))"

text \<open>
  \<open>Visitor.pass\<close>: every node in order emits from the current field (the nodes and the
  object share one field, as the script wires them), the gatekeeper routes each intention
  unchanged, and the object absorbs the batch.
\<close>

record visitorState =
  dNodesInOrder :: "dn list"
  objectFieldOf :: objectField
  randomOf :: rng

definition routeIntention :: "intention \<Rightarrow> intention" where
  "routeIntention it = it"

fun visitNodes :: "field \<Rightarrow> nat \<Rightarrow> dn list \<Rightarrow> rng \<Rightarrow> intention list \<times> dn list \<times> rng" where
  "visitNodes f pass [] g = ([], [], g)"
| "visitNodes f pass (d # ds) g =
     (case emitIntentions f pass d g of
        (its, d', g1) \<Rightarrow>
          (case visitNodes f pass ds g1 of
             (rest, ds', g2) \<Rightarrow> (map routeIntention its @ rest, d' # ds', g2)))"

definition pass :: "visitorState \<Rightarrow> nat \<Rightarrow> visitorState" where
  "pass v t =
     (case visitNodes (ofield (objectFieldOf v)) t (dNodesInOrder v) (randomOf v) of
        (emitted, ds', g') \<Rightarrow>
          \<lparr>dNodesInOrder = ds',
           objectFieldOf = absorbIntentionsAndAdvance (objectFieldOf v) emitted,
           randomOf = g'\<rparr>)"

text \<open>\<open>initRow(size, initMode)\<close> of this script builds the pulse map of the seed row.\<close>

definition initPulse :: "nat \<Rightarrow> int \<Rightarrow> pulse" where
  "initPulse i v = \<lparr>pid = cell_id i, pvalue = v, response = None, meta = [(''src'', Str ''init'')]\<rparr>"

definition initRow :: "nat \<Rightarrow> string \<Rightarrow> rng \<Rightarrow> (string \<rightharpoonup> pulse) \<times> rng" where
  "initRow sz initMode g =
     (if initMode = ''single''
      then (fold (\<lambda>i m. m(cell_id i \<mapsto> initPulse i (if i = sz div 2 then 1 else 0)))
              [0..<sz] Map.empty, g)
      else if initMode = ''random''
      then fold (\<lambda>i (m, g). let (d, g') = random g
                              in (m(cell_id i \<mapsto> initPulse i (if d < 1 / 10 then 1 else 0)), g'))
             [0..<sz] (Map.empty, g)
      else (fold (\<lambda>i m. m(cell_id i \<mapsto> initPulse i 0)) [0..<sz] Map.empty, g))"

section \<open>Vocabulary of the properties\<close>

text \<open>The pulses an object files under kind \<open>k\<close>: those of the intentions addressed to
  it that carry this kind, in the order they were handed over.\<close>

definition bucket :: "string \<Rightarrow> string \<Rightarrow> intention list \<Rightarrow> pulse list" where
  "bucket oid k its = concat (map pulses (filter (\<lambda>it. toObject it = oid \<and> kind it = k) its))"

text \<open>The proposals that target cell \<open>c\<close> of object \<open>oid\<close>, as (category, value) pairs in
  the order they were appended.\<close>

definition proposals :: "string \<Rightarrow> intention list \<Rightarrow> nat \<Rightarrow> (string \<times> int) list" where
  "proposals oid its c =
     concat (map (\<lambda>it. if toObject it = oid
                        then map (\<lambda>p. (kind it, pvalue p))
                               (filter (\<lambda>p. pid p = cell_id c) (pulses it))
                        else []) its)"

text \<open>A random source that draws the same number every time.\<close>

definition constantSource :: "rat \<Rightarrow> rng" where
  "constantSource d = \<lparr>draws = (\<lambda>n. d), drawn = 0\<rparr>"

text \<open>
  The reflector in the words of its specification: the persistence counter of cell \<open>i\<close>
  after observing the field, the neighbour a cell pushes to, and the pulse it emits.
\<close>

definition persistence :: "field \<Rightarrow> nat list \<Rightarrow> nat \<Rightarrow> nat" where
  "persistence f consec i = (if readCell f i = 0 then 0 else consec ! i + 1)"

definition reflectTarget :: "nat \<Rightarrow> nat \<Rightarrow> nat" where
  "reflectTarget sz i = (if even i then (i + 1) mod sz else (i - 1) mod sz)"

definition reflectionPulse :: "nat \<Rightarrow> nat \<Rightarrow> nat \<Rightarrow> pulse" where
  "reflectionPulse sz t i =
     \<lparr>pid = cell_id (reflectTarget sz i), pvalue = 1, response = None,
      meta = [(''src'', Str ''DN_reflect''), (''from'', Num (int i)),
              (''passIndex'', Num (int t))]\<rparr>"

text \<open>
  The state of phase A of the flat script after \<open>k\<close> cells when its three sources stay
  idle: nothing is marked, the counters are bounded (by \<open>b + 1\<close> for the cells already
  visited, by \<open>b\<close> for the others) and \<open>k\<close> draws were made from the source \<open>g\<close>.
\<close>

definition idle :: "nat \<Rightarrow> nat \<Rightarrow> rng \<Rightarrow> nat \<Rightarrow> phaseA \<Rightarrow> bool" where
  "idle sz b g k s \<longleftrightarrow>
     proposal s = replicate sz 0 \<and> reflection s = replicate sz 0
     \<and> length (consecOnes s) = sz
     \<and> (\<forall>i < sz. consecOnes s ! i \<le> (if i < k then b + 1 else b))
     \<and> draws (rnd s) = draws g \<and> drawn (rnd s) = drawn g + k"

text \<open>
  The counters of the ledger script's reflector are calm at bound \<open>b\<close>: not yet created,
  or one per cell and none above \<open>b\<close>.
\<close>

definition calm :: "nat \<Rightarrow> nat \<Rightarrow> nat list option \<Rightarrow> bool" where
  "calm n b memory \<longleftrightarrow>
     (case memory of None \<Rightarrow> True
      | Some cs \<Rightarrow> length cs = n \<and> (\<forall>i < n. cs ! i \<le> b))"

text \<open>The sparse random row: cell \<open>i\<close> is 1 exactly when the \<open>i\<close>-th next draw of the
  source is below the density 0.1.\<close>

definition sparseRow :: "rng \<Rightarrow> nat \<Rightarrow> row" where
  "sparseRow g sz = map (\<lambda>i. if draws g (drawn g + i) < 1 / 10 then 1 else 0) [0..<sz]"

section \<open>Properties\<close>

lemma and_one_word32: "(w :: 32 word) AND 1 = (if bit w 0 then 1 else 0)"
  by (simp add: and_one_eq mod_2_eq_odd bit_0)

lemma rule_bit:
  assumes "n < 8"
  shows "sint (signed_drop_bit n (word_of_int k :: 32 word) AND 1) = k div 2 ^ n mod 2"
proof -
  have "bit (signed_drop_bit n (word_of_int k :: 32 word)) 0 = bit k n"
    using assms by (simp add: bit_signed_drop_bit_iff bit_word_of_int_iff)
  then show ?thesis
    by (simp add: and_one_word32 bit_iff_odd mod_2_eq_odd)
qed

lemma rule_index:
  assumes "l \<in> {0, 1}" "c \<in> {0, 1}" "r \<in> {0, 1}"
  shows "unat (push_bit 2 (word_of_int l :: 32 word) OR push_bit 1 (word_of_int c)
               OR word_of_int r) = nat (l * 4 + c * 2 + r)"
  using assms by auto

lemma ruleFn_binary: "ruleFn k l c r \<in> {0, 1}"
  unfolding ruleFn_def Let_def by (simp add: and_one_word32)

text \<open>
  C2. For a rule number in [0,255] and neighbours in {0,1}, \<open>ruleFn\<close> returns bit
  \<open>l*4 + c*2 + r\<close> of the rule number. \<open>ruleFn\<close> reads nothing but its four arguments
  and writes nothing, so it is a function of them: equal arguments give equal results.
\<close>

theorem ruleFn_is_rule_bit:
  assumes "0 \<le> ruleNumber" "ruleNumber \<le> 255"
    and "l \<in> {0, 1}" "c \<in> {0, 1}" "r \<in> {0, 1}"
  shows "ruleFn ruleNumber l c r = ruleNumber div 2 ^ nat (l * 4 + c * 2 + r) mod 2"
proof -
  have lt: "nat (l * 4 + c * 2 + r) < 8"
    using assms(3-5) by auto
  show ?thesis
    unfolding ruleFn_def Let_def rule_index [OF assms(3-5)]
    using lt by (simp add: rule_bit)
qed

theorem ruleFn_is_rule_bit_witness:
  "(0::int) \<le> 110 \<and> (110::int) \<le> 255 \<and> ruleFn 110 1 0 1 = 110 div 2 ^ nat (1 * 4 + 0 * 2 + 1) mod 2
   \<and> ruleFn 110 1 0 1 = 1"
  using ruleFn_is_rule_bit [of 110 1 0 1] by simp

subsection \<open>How the object files and selects pulses\<close>

lemma store_pulses_miss:
  "x \<notin> pid ` set ps \<Longrightarrow> fold (\<lambda>p m. m(pid p \<mapsto> p)) ps m x = m x"
  by (induction ps arbitrary: m) auto


lemma emptyBuckets_fold:
  "fold (\<lambda>k byKind. byKind(k \<mapsto> Map.empty)) prec b0 k = (if k \<in> set prec then Some Map.empty else b0 k)"
  by (induction prec arbitrary: b0) auto

lemma emptyBuckets_at:
  "emptyBuckets prec k = (if k \<in> set prec then Some Map.empty else None)"
  by (simp add: emptyBuckets_def emptyBuckets_fold)

lemma bucket_Cons:
  "bucket oid k (it # its) = (if toObject it = oid \<and> kind it = k then pulses it @ bucket oid k its else bucket oid k its)"
  by (simp add: bucket_def)

lemma bucketIntention_at:
  "bucketIntention oid it b k =
     (case b k of None \<Rightarrow> None
      | Some m \<Rightarrow> Some (if toObject it = oid \<and> kind it = k
                         then fold (\<lambda>p m. m(pid p \<mapsto> p)) (pulses it) m else m))"
  by (auto simp: bucketIntention_def split: option.splits)

lemma bucketIntention_fold:
  "fold (bucketIntention oid) its b k =
     (case b k of None \<Rightarrow> None
      | Some m \<Rightarrow> Some (fold (\<lambda>p m. m(pid p \<mapsto> p)) (bucket oid k its) m))"
proof (induction its arbitrary: b)
  case Nil
  then show ?case by (simp add: bucket_def split: option.splits)
next
  case (Cons it its)
  have "fold (bucketIntention oid) (it # its) b k =
          fold (bucketIntention oid) its (bucketIntention oid it b) k"
    by simp
  also have "\<dots> = (case bucketIntention oid it b k of None \<Rightarrow> None
      | Some m \<Rightarrow> Some (fold (\<lambda>p m. m(pid p \<mapsto> p)) (bucket oid k its) m))"
    by (rule Cons.IH)
  also have "\<dots> = (case b k of None \<Rightarrow> None
      | Some m \<Rightarrow> Some (fold (\<lambda>p m. m(pid p \<mapsto> p)) (bucket oid k (it # its)) m))"
    by (auto simp: bucketIntention_at bucket_Cons split: option.splits)
  finally show ?case .
qed

lemma byKind_at:
  "fold (bucketIntention oid) its (emptyBuckets prec) k =
     (if k \<in> set prec then Some (fold (\<lambda>p m. m(pid p \<mapsto> p)) (bucket oid k its) Map.empty) else None)"
  by (simp add: bucketIntention_fold emptyBuckets_at)

lemma chosen_none:
  "\<forall>k\<in>set ks. \<forall>m. byKind k = Some m \<longrightarrow> m x = None \<Longrightarrow> chosen byKind ks x = None"
  by (induction ks) (auto split: option.splits)


lemma nextPulseMap_at:
  "fold (\<lambda>i m. m(cell_id i \<mapsto> G (cell_id i))) xs m0 x =
     (if x \<in> cell_id ` set xs then Some (G x) else m0 x)"
  by (induction xs arbitrary: m0) auto

lemma absorb_current:
  assumes "c < fsize (ofield obj)"
  shows "current (ofield (absorbIntentionsAndAdvance obj its)) (cell_id c) =
     Some (case chosen (fold (bucketIntention (objectId obj)) its (emptyBuckets (precedence obj)))
                  (precedence obj) (cell_id c) of
             None \<Rightarrow> defaultPulse (cell_id c) | Some q \<Rightarrow> q)"
proof -
  let ?G = "\<lambda>p. case chosen (fold (bucketIntention (objectId obj)) its
                                  (emptyBuckets (precedence obj))) (precedence obj) p of
                   None \<Rightarrow> defaultPulse p | Some q \<Rightarrow> q"
  have "current (ofield (absorbIntentionsAndAdvance obj its)) =
          fold (\<lambda>i m. m(cell_id i \<mapsto> ?G (cell_id i))) [0..<fsize (ofield obj)] Map.empty"
    by (simp add: absorbIntentionsAndAdvance_def Let_def setNextState_def)
  then show ?thesis
    using assms by (simp add: nextPulseMap_at [where G = ?G])
qed


lemma proposals_iff:
  "(k, v) \<in> set (proposals oid its c) \<longleftrightarrow>
     (\<exists>q\<in>set (bucket oid k its). pid q = cell_id c \<and> pvalue q = v)"
  by (auto simp: proposals_def bucket_def)


lemma absorb_default:
  assumes "c < fsize (ofield obj)"
    and "\<forall>(k, v) \<in> set (proposals (objectId obj) its c). k \<notin> set (precedence obj)"
  shows "current (ofield (absorbIntentionsAndAdvance obj its)) (cell_id c)
           = Some (defaultPulse (cell_id c))"
proof -
  let ?B = "fold (bucketIntention (objectId obj)) its (emptyBuckets (precedence obj))"
  have "\<forall>k\<in>set (precedence obj). \<forall>m. ?B k = Some m \<longrightarrow> m (cell_id c) = None"
  proof (intro ballI allI impI)
    fix k m
    assume k: "k \<in> set (precedence obj)" and m: "?B k = Some m"
    have "cell_id c \<notin> pid ` set (bucket (objectId obj) k its)"
    proof
      assume "cell_id c \<in> pid ` set (bucket (objectId obj) k its)"
      then obtain q where "q \<in> set (bucket (objectId obj) k its)" "pid q = cell_id c"
        by auto
      then have "(k, pvalue q) \<in> set (proposals (objectId obj) its c)"
        by (auto simp: proposals_iff)
      with assms(2) k show False by auto
    qed
    with k m show "m (cell_id c) = None"
      by (auto simp: byKind_at store_pulses_miss)
  qed
  then have "chosen ?B (precedence obj) (cell_id c) = None"
    by (rule chosen_none)
  then show ?thesis
    by (simp add: absorb_current [OF assms(1)])
qed


subsection \<open>Resolution, replacement and merge\<close>

lemma cell_id_0: "cell_id 0 = ''cell:0''"
  by code_simp

lemma cell_id_1: "cell_id (Suc 0) = ''cell:1''"
  by code_simp








text \<open>
  C3 as stated does not hold: \<open>absorbIntentionsAndAdvance\<close> raises nothing. With a
  one-cell field and no intention at all, cell 0 is resolved to a fresh pulse of value 0.
\<close>

theorem absorb_defaults_missing_cell_counterexample:
  "proposals ''O_field'' [] 0 = []
   \<and> current (ofield (absorbIntentionsAndAdvance
        \<lparr>objectId = ''O_field'', ofield = new_Field 1, precedence = [''baseline'']\<rparr> []))
        ''cell:0'' = Some \<lparr>pid = ''cell:0'', pvalue = 0, response = None, meta = []\<rparr>
   \<and> snapshotRow (ofield (absorbIntentionsAndAdvance
        \<lparr>objectId = ''O_field'', ofield = new_Field 1, precedence = [''baseline'']\<rparr> [])) = [0]"
  by (simp add: proposals_def absorbIntentionsAndAdvance_def emptyBuckets_def snapshotRow_def
      readCell_def new_Field_def setNextState_def defaultPulse_def Let_def cell_id_0)

text \<open>
  C3, amended. When no proposal of a kind on the precedence list targets cell \<open>c\<close>, the
  object does not fail: it resolves the cell to the default pulse, whose value is 0.
\<close>

theorem absorb_defaults_missing_cell:
  assumes "c < fsize (ofield obj)"
    and "\<forall>(k, v) \<in> set (proposals (objectId obj) its c). k \<notin> set (precedence obj)"
  shows "current (ofield (absorbIntentionsAndAdvance obj its)) (cell_id c)
           = Some (defaultPulse (cell_id c))
         \<and> readCell (ofield (absorbIntentionsAndAdvance obj its)) c = 0"
  using absorb_default [OF assms]
  by (simp add: readCell_def defaultPulse_def)

theorem absorb_defaults_missing_cell_witness:
  "readCell (ofield (absorbIntentionsAndAdvance
      \<lparr>objectId = ''O_field'', ofield = new_Field 2, precedence = [''proposal'', ''reflection'']\<rparr>
      [\<lparr>fromDN = ''DN_rule'', toObject = ''O_field'', kind = ''baseline'',
        pulses = [\<lparr>pid = ''cell:0'', pvalue = 1, response = None, meta = []\<rparr>,
                  \<lparr>pid = ''cell:1'', pvalue = 1, response = None, meta = []\<rparr>], imeta = []\<rparr>])) 1 = 0"
proof -
  let ?obj = "\<lparr>objectId = ''O_field'', ofield = new_Field 2,
       precedence = [''proposal'', ''reflection'']\<rparr>"
  let ?B = "\<lparr>fromDN = ''DN_rule'', toObject = ''O_field'', kind = ''baseline'',
        pulses = [\<lparr>pid = ''cell:0'', pvalue = 1, response = None, meta = []\<rparr>,
                  \<lparr>pid = ''cell:1'', pvalue = 1, response = None, meta = []\<rparr>], imeta = []\<rparr>"
  have h1: "1 < fsize (ofield ?obj)" by (simp add: new_Field_def)
  have h2: "\<forall>(k, v) \<in> set (proposals (objectId ?obj) [?B] 1). k \<notin> set (precedence ?obj)"
    by (simp add: proposals_def cell_id_1)
  show ?thesis
    using absorb_defaults_missing_cell [OF h1 h2] by simp
qed

text \<open>
  C9 as stated does not hold: \<open>setNextState\<close> compares no sizes. A field of two cells
  accepts a map with one entry, and its row changes from \<open>[0, 0]\<close> to \<open>[1, 0]\<close>.
\<close>

theorem setNextState_unchecked_counterexample:
  "snapshotRow \<lparr>fsize = 2, current = [''cell:0'' \<mapsto> initPulse 0 0, ''cell:1'' \<mapsto> initPulse 1 0]\<rparr>
     = [0, 0]
   \<and> snapshotRow (setNextState
        \<lparr>fsize = 2, current = [''cell:0'' \<mapsto> initPulse 0 0, ''cell:1'' \<mapsto> initPulse 1 0]\<rparr>
        [''cell:0'' \<mapsto> initPulse 0 1]) = [1, 0]"
  by (simp add: snapshotRow_def readCell_def setNextState_def initPulse_def cell_id_0 cell_id_1
      upt_rec)

text \<open>
  C9, amended. \<open>setNextState\<close> always succeeds: the current map becomes exactly the new
  map, whatever its number of entries, the size is kept, and a cell the new map lacks
  reads as 0 afterwards.
\<close>

theorem setNextState_replaces:
  "current (setNextState f m) = m \<and> fsize (setNextState f m) = fsize f
   \<and> snapshotRow (setNextState f m)
       = map (\<lambda>i. case m (cell_id i) of None \<Rightarrow> 0 | Some p \<Rightarrow> pvalue p) [0..<fsize f]"
  by (simp add: setNextState_def snapshotRow_def readCell_def)

lemma applyBaseRule_binary: "\<forall>x\<in>set (applyBaseRule ruleNumber prev). x = 0 \<or> x = 1"
  using ruleFn_binary by (auto simp: applyBaseRule_def split: prod.splits)

text \<open>
  C10. For a baseline row \<open>b\<close> of binary cells and an override array of the same length,
  the merged row has the same length, is 1 where the override is set and \<open>b\<close>'s value
  elsewhere; hence it is pointwise at least \<open>b\<close>: an override only ever forces a 1.
  Every row \<open>applyBaseRule\<close> returns is binary (\<open>applyBaseRule_binary\<close>).
\<close>

theorem mergeOverride_pointwise:
  assumes "length override = length baselineNext"
    and "\<forall>x\<in>set baselineNext. x = 0 \<or> x = 1"
  shows "length (mergeOverride baselineNext override) = length baselineNext
         \<and> (\<forall>i<length baselineNext.
               mergeOverride baselineNext override ! i
                 = (if truthy (override ! i) then 1 else baselineNext ! i)
               \<and> baselineNext ! i \<le> mergeOverride baselineNext override ! i)"
proof -
  have "\<And>i. i < length baselineNext \<Longrightarrow> baselineNext ! i \<le> 1"
    using assms(2) by (metis nth_mem order_refl zero_le_one)
  then show ?thesis
    using assms(1) by (auto simp: mergeOverride_def)
qed

theorem mergeOverride_pointwise_witness:
  "length [1, 0, 0 :: int] = length [0, 1, 0 :: int]
   \<and> mergeOverride [0, 1, 0] [1, 0, 0] ! 0 = 1
   \<and> [0, 1, 0] ! 0 \<le> mergeOverride [0, 1, 0] [1, 0, 0] ! 0"
proof -
  have h1: "length [1, 0, 0 :: int] = length [0, 1, 0 :: int]" by simp
  have h2: "\<forall>x\<in>set [0, 1, 0 :: int]. x = 0 \<or> x = 1" by simp
  from mergeOverride_pointwise [OF h1 h2]
  have "\<forall>i<length [0, 1, 0 :: int].
          mergeOverride [0, 1, 0] [1, 0, 0] ! i = (if truthy ([1, 0, 0] ! i) then 1 else [0, 1, 0] ! i)
          \<and> [0, 1, 0] ! i \<le> mergeOverride [0, 1, 0] [1, 0, 0] ! i"
    by (rule conjunct2)
  from this [rule_format, of 0] show ?thesis
    by (simp add: truthy_def)
qed

subsection \<open>The reflector of the class-based script\<close>

lemma reflect_target_eq:
  "i < sz \<Longrightarrow> (if i mod 2 = 0 then i + 1 + sz else i + sz - 1) mod sz = reflectTarget sz i"
proof (cases "even i")
  case True
  then have e: "(i mod 2 = 0) = True" "even i = True"
    by (simp_all add: even_iff_mod_2_eq_zero)
  have "(i + 1 + sz) mod sz = (i + 1) mod sz"
    by (rule mod_add_self2)
  then show ?thesis
    by (simp only: reflectTarget_def e if_True)
next
  case False
  then have e: "(i mod 2 = 0) = False" "even i = False"
    by (simp_all add: even_iff_mod_2_eq_zero)
  from False have "0 < i" by (cases i) auto
  then have "i + sz - 1 = (i - 1) + sz" by simp
  then have "(i + sz - 1) mod sz = (i - 1) mod sz"
    by (simp only: mod_add_self2)
  then show ?thesis
    by (simp only: reflectTarget_def e if_False)
qed

lemma DN_reflect_cell_step:
  assumes "i < fsize f"
  shows "DN_reflect_cell h f t i (ps, cs) =
     (if h \<le> int (persistence f cs i) then ps @ [reflectionPulse (fsize f) t i] else ps,
      cs[i := persistence f cs i])"
  using reflect_target_eq [OF assms]
  by (simp add: DN_reflect_cell_def Let_def persistence_def truthy_def reflectionPulse_def)

lemma DN_reflect_loop:
  assumes "length consec = fsize f"
  shows "k \<le> fsize f \<Longrightarrow>
     fold (DN_reflect_cell h f t) [0..<k] ([], consec) =
       (map (reflectionPulse (fsize f) t) (filter (\<lambda>i. h \<le> int (persistence f consec i)) [0..<k]),
        map (persistence f consec) [0..<k] @ drop k consec)"
proof (induction k)
  case 0
  then show ?case by simp
next
  case (Suc k)
  let ?cs = "map (persistence f consec) [0..<k] @ drop k consec"
  have k: "k < fsize f" using Suc.prems by simp
  have nth: "?cs ! k = consec ! k"
    using k assms by (simp add: nth_append)
  have pk: "persistence f ?cs k = persistence f consec k"
    by (simp add: persistence_def nth)
  have upd: "?cs[k := persistence f consec k] =
               map (persistence f consec) [0..<Suc k] @ drop (Suc k) consec"
    using k assms by (simp add: list_update_append Cons_nth_drop_Suc [symmetric])
  show ?case
    using Suc.IH k by (simp add: DN_reflect_cell_step pk upd)
qed

lemma DN_reflect_general:
  assumes "reflectionHold < 1000000000" and "length consec = fsize f"
  shows "DN_reflect_emitIntentions dnId oid reflectionHold f t consec =
     (let ps = map (reflectionPulse (fsize f) t)
                 (filter (\<lambda>i. reflectionHold \<le> int (persistence f consec i)) [0..<fsize f])
      in (if ps = [] then []
          else [\<lparr>fromDN = dnId, toObject = oid, kind = ''reflection'', pulses = ps,
                  imeta = [(''passIndex'', Num (int t))]\<rparr>],
          map (persistence f consec) [0..<fsize f]))"
  using assms
  by (simp add: DN_reflect_emitIntentions_def DN_reflect_loop [OF assms(2)] Let_def)

lemma DN_reflect_disabled:
  "1000000000 \<le> reflectionHold \<Longrightarrow>
     DN_reflect_emitIntentions dnId oid reflectionHold f t consec = ([], consec)"
  by (simp add: DN_reflect_emitIntentions_def)

lemma js_str_0: "js_str 0 = ''0''"
  by code_simp

lemma js_str_1: "js_str 1 = ''1''"
  by code_simp

lemma cell_id_2: "cell_id 2 = ''cell:2''"
  by code_simp

lemma cell_id_3: "cell_id 3 = ''cell:3''"
  by code_simp

lemma cell_id_4: "cell_id 4 = ''cell:4''"
  by code_simp

text \<open>
  C5 as stated does not hold for a hold of \<open>1e9\<close> or more: \<open>DN_reflect.emitIntentions\<close>
  returns before its loop, so the counter of a cell whose value is 1 stays at 0.
\<close>

theorem DN_reflect_guard_counterexample:
  "readCell \<lparr>fsize = 1, current = [''cell:0'' \<mapsto> initPulse 0 1]\<rparr> 0 = 1
   \<and> DN_reflect_emitIntentions ''DN_reflect'' ''O_field'' 1000000000
       \<lparr>fsize = 1, current = [''cell:0'' \<mapsto> initPulse 0 1]\<rparr> 1 [0] = ([], [0])"
  by (simp add: DN_reflect_emitIntentions_def readCell_def cell_id_0 initPulse_def)

text \<open>
  C5, amended. With one counter per cell, \<open>DN_reflect.emitIntentions\<close> does nothing when
  the hold is \<open>1e9\<close> or more (no pulse, counters untouched). Below that, every counter is
  first updated (one more where the cell is not 0, reset to 0 where it is 0), and for each
  cell \<open>i\<close> whose updated counter reaches the hold exactly one pulse of value 1 is emitted,
  in a single intention of kind \<open>reflection\<close>, targeting cell \<open>(i + 1) mod size\<close> for even
  \<open>i\<close> and \<open>(i - 1) mod size\<close> for odd \<open>i\<close>.
\<close>

theorem DN_reflect_counters_and_pulses:
  assumes "length consec = fsize f"
  shows "DN_reflect_emitIntentions dnId oid reflectionHold f t consec =
     (if 1000000000 \<le> reflectionHold then ([], consec)
      else let ps = map (reflectionPulse (fsize f) t)
                      (filter (\<lambda>i. reflectionHold \<le> int (persistence f consec i)) [0..<fsize f])
           in (if ps = [] then []
               else [\<lparr>fromDN = dnId, toObject = oid, kind = ''reflection'', pulses = ps,
                       imeta = [(''passIndex'', Num (int t))]\<rparr>],
               map (persistence f consec) [0..<fsize f]))"
proof (cases "1000000000 \<le> reflectionHold")
  case True
  then show ?thesis
    by (simp add: DN_reflect_disabled)
next
  case False
  then have "reflectionHold < 1000000000" by simp
  from DN_reflect_general [OF this assms] False show ?thesis
    by simp
qed

lemma upt3: "[0..<3] = [0, 1, 2]"
  by (simp add: upt_rec del: One_nat_def)

theorem DN_reflect_counters_and_pulses_witness:
  "DN_reflect_emitIntentions ''DN_reflect'' ''O_field'' 2
     \<lparr>fsize = 3, current = [''cell:0'' \<mapsto> initPulse 0 1, ''cell:1'' \<mapsto> initPulse 1 0,
                             ''cell:2'' \<mapsto> initPulse 2 1]\<rparr> 3 [1, 0, 0]
   = ([\<lparr>fromDN = ''DN_reflect'', toObject = ''O_field'', kind = ''reflection'',
        pulses = [\<lparr>pid = ''cell:1'', pvalue = 1, response = None,
                   meta = [(''src'', Str ''DN_reflect''), (''from'', Num 0),
                           (''passIndex'', Num 3)]\<rparr>],
        imeta = [(''passIndex'', Num 3)]\<rparr>], [2, 0, 1])"
proof -
  let ?f = "\<lparr>fsize = 3, current = [''cell:0'' \<mapsto> initPulse 0 1, ''cell:1'' \<mapsto> initPulse 1 0,
                             ''cell:2'' \<mapsto> initPulse 2 1]\<rparr>"
  have h: "length [1, 0, 0 :: nat] = fsize ?f" by simp
  have p0: "persistence ?f [1, 0, 0] 0 = 2"
    by (simp add: persistence_def readCell_def cell_id_0 initPulse_def)
  have p1: "persistence ?f [1, 0, 0] 1 = 0"
    by (simp add: persistence_def readCell_def cell_id_1 initPulse_def)
  have tg: "reflectTarget 3 0 = 1"
    by (simp add: reflectTarget_def)
  have c1: "cell_id 1 = ''cell:1''"
    by (simp add: cell_id_1)
  have p2: "persistence ?f [1, 0, 0] 2 = 1"
    by (simp add: persistence_def readCell_def cell_id_2 initPulse_def)
  show ?thesis
    using DN_reflect_counters_and_pulses [OF h, of "''DN_reflect''" "''O_field''" 2 3]
    by (simp add: upt3 p0 p1 p2 reflectionPulse_def tg c1 del: One_nat_def)
qed

subsection \<open>Random draws at injection probability 0\<close>

lemma DN_inject_disabled:
  "injectProb \<le> 0 \<Longrightarrow> DN_inject_emitIntentions dnId oid injectProb f t g = ([], g)"
  by (simp add: DN_inject_emitIntentions_def)

lemma DN_CPI_cell_drawn:
  "drawn (snd (DN_CPI_cell pats p t prev oid i (v, g))) = drawn g + 1"
  by (simp add: DN_CPI_cell_def random_def Let_def split: prod.splits option.splits)

lemma DN_CPI_loop_drawn:
  "drawn (snd (fold (DN_CPI_cell pats p t prev oid) xs vg)) = drawn (snd vg) + length xs"
proof (induction xs arbitrary: vg)
  case Nil
  then show ?case by simp
next
  case (Cons i xs)
  obtain v g where vg: "vg = (v, g)" by (cases vg)
  show ?case
    using Cons.IH [of "DN_CPI_cell pats p t prev oid i (v, g)"]
    by (simp add: vg DN_CPI_cell_drawn)
qed

lemma DN_CPI_always_draws:
  "drawn (snd (DN_CPI_emitIntentions pats p t prev oid v g)) = drawn g + length prev"
  by (simp add: DN_CPI_emitIntentions_def DN_CPI_loop_drawn)

lemma flat_phaseA_cell_drawn:
  "drawn (rnd (flat_phaseA_cell sz prev pats p h i s)) = drawn (rnd s) + 1"
  by (simp add: flat_phaseA_cell_def random_def Let_def split: prod.splits)

lemma flat_phaseA_loop_drawn:
  "drawn (rnd (fold (flat_phaseA_cell sz prev pats p h) xs s)) = drawn (rnd s) + length xs"
  by (induction xs arbitrary: s) (simp_all add: flat_phaseA_cell_drawn)

lemma flat_phaseA_always_draws:
  "drawn (rnd (flat_phaseA sz prev pats p h consec g)) = drawn g + sz"
  by (simp add: flat_phaseA_def flat_phaseA_loop_drawn)

lemma neighborhood3_one: "neighborhood3 [1] 0 = (1, 1, 1, ''111'')"
  by (simp add: neighborhood3_def js_str_1)

text \<open>
  C7. At injection probability 0 the injector must make no draw and emit nothing. The
  class-based \<open>DN_inject.emitIntentions\<close> does so (\<open>DN_inject_disabled\<close>). The ledger
  script's \<open>DN_CPI.emitIntentions\<close> and phase A of the flat script do not: on a one-cell row
  they emit nothing, but the random source has moved on by one draw.
\<close>

theorem zero_probability_still_draws:
  "drawn (constantSource (1 / 2)) = 0
   \<and> incomingIntentions (fst (DN_CPI_emitIntentions [] 0 1 [1] ''O_IS'' makeVisitor
                                (constantSource (1 / 2)))) = []
   \<and> drawn (snd (DN_CPI_emitIntentions [] 0 1 [1] ''O_IS'' makeVisitor
                    (constantSource (1 / 2)))) = 1
   \<and> proposal (flat_phaseA 1 [1] (Some []) 0 5 [0] (constantSource (1 / 2))) = [0]
   \<and> drawn (rnd (flat_phaseA 1 [1] (Some []) 0 5 [0] (constantSource (1 / 2)))) = 1"
proof -
  have a: "drawn (constantSource (1 / 2)) = 0"
    by (simp add: constantSource_def)
  have b: "incomingIntentions (fst (DN_CPI_emitIntentions [] 0 1 [1] ''O_IS'' makeVisitor
                                (constantSource (1 / 2)))) = []"
    by (simp add: DN_CPI_emitIntentions_def DN_CPI_cell_def neighborhood3_one random_def
        constantSource_def makeVisitor_def)
  have c: "drawn (snd (DN_CPI_emitIntentions [] 0 1 [1] ''O_IS'' makeVisitor
                    (constantSource (1 / 2)))) = 1"
    by (simp add: DN_CPI_always_draws a)
  have d: "proposal (flat_phaseA 1 [1] (Some []) 0 5 [0] (constantSource (1 / 2))) = [0]"
    by (simp add: flat_phaseA_def flat_phaseA_cell_def cpiPropose_def truthy_def random_def
        constantSource_def Let_def)
  have e: "drawn (rnd (flat_phaseA 1 [1] (Some []) 0 5 [0] (constantSource (1 / 2)))) = 1"
    by (simp add: flat_phaseA_always_draws a)
  from a b c d e show ?thesis by simp
qed

subsection \<open>The pattern scenario\<close>

lemma neighborhood3_scenario: "neighborhood3 [1, 0, 1, 0, 0] 1 = (1, 0, 1, ''101'')"
  by (simp add: neighborhood3_def js_str_0 js_str_1)

lemma scenario_class:
  "snapshotRow (ofield (objectFieldOf (pass
      \<lparr>dNodesInOrder = [DN_cpi ''DN_cpi'' ''O_field'' [''101''],
                         DN_rule ''DN_rule'' ''O_field'' 0],
       objectFieldOf =
         \<lparr>objectId = ''O_field'',
          ofield = \<lparr>fsize = 5,
                    current = [''cell:0'' \<mapsto> initPulse 0 1, ''cell:1'' \<mapsto> initPulse 1 0,
                               ''cell:2'' \<mapsto> initPulse 2 1, ''cell:3'' \<mapsto> initPulse 3 0,
                               ''cell:4'' \<mapsto> initPulse 4 0]\<rparr>,
          precedence = [''proposal'', ''baseline'']\<rparr>,
       randomOf = constantSource (1 / 2)\<rparr> 1))) = [0, 1, 0, 0, 0]"
  by code_simp

lemma scenario_flat:
  "fst (flat_runISVariant_loop (ruleFn 0) 5 (Some [''101'']) 0 2 1 [1, 0, 1, 0, 0]
          [0, 0, 0, 0, 0] (constantSource (1 / 2))) = [[0, 1, 0, 0, 0]]"
  by code_simp

lemma scenario_ledger:
  "fst (cpux_pass 0 5 [''101''] 0 2 1 [1, 0, 1, 0, 0]
         \<lparr>visitor = makeVisitor, pulseLedger = [], reflectMemory = None,
          source = constantSource (1 / 2)\<rparr>) = [0, 1, 0, 0, 0]"
  by code_simp

text \<open>
  C6. Pattern set \<open>{"101"}\<close> ranked above baseline, rule 0, five cells, seed row
  \<open>[1,0,1,0,0]\<close>: cell 1 has the wrapped neighbourhood \<open>"101"\<close>, and the next row is 1 at
  cell 1 and 0 at every other cell. This holds for one pass of the class-based script
  with the nodes \<open>DN_cpi\<close> and \<open>DN_rule\<close> and precedence \<open>proposal\<close> over \<open>baseline\<close>, and
  for one step of the flat and of the ledger script with their two other sources idle
  (injection probability 0, hold 2).
\<close>

theorem pattern_101_scenario:
  "neighborhood3 [1, 0, 1, 0, 0] 1 = (1, 0, 1, ''101'')
   \<and> snapshotRow (ofield (objectFieldOf (pass
      \<lparr>dNodesInOrder = [DN_cpi ''DN_cpi'' ''O_field'' [''101''],
                         DN_rule ''DN_rule'' ''O_field'' 0],
       objectFieldOf =
         \<lparr>objectId = ''O_field'',
          ofield = \<lparr>fsize = 5,
                    current = [''cell:0'' \<mapsto> initPulse 0 1, ''cell:1'' \<mapsto> initPulse 1 0,
                               ''cell:2'' \<mapsto> initPulse 2 1, ''cell:3'' \<mapsto> initPulse 3 0,
                               ''cell:4'' \<mapsto> initPulse 4 0]\<rparr>,
          precedence = [''proposal'', ''baseline'']\<rparr>,
       randomOf = constantSource (1 / 2)\<rparr> 1))) = [0, 1, 0, 0, 0]
   \<and> fst (flat_runISVariant_loop (ruleFn 0) 5 (Some [''101'']) 0 2 1 [1, 0, 1, 0, 0]
          [0, 0, 0, 0, 0] (constantSource (1 / 2))) = [[0, 1, 0, 0, 0]]
   \<and> fst (cpux_pass 0 5 [''101''] 0 2 1 [1, 0, 1, 0, 0]
         \<lparr>visitor = makeVisitor, pulseLedger = [], reflectMemory = None,
          source = constantSource (1 / 2)\<rparr>) = [0, 1, 0, 0, 0]"
  using neighborhood3_scenario scenario_class scenario_flat scenario_ledger
  by (intro conjI)

subsection \<open>Idle sources leave the baseline automaton\<close>

lemma fold_upt_invariant:
  assumes "P 0 s0" and "\<And>k s. k < n \<Longrightarrow> P k s \<Longrightarrow> P (Suc k) (f k s)"
  shows "P n (fold f [0..<n] s0)"
proof -
  have "k \<le> n \<Longrightarrow> P k (fold f [0..<k] s0)" for k
  proof (induction k)
    case 0
    then show ?case using assms(1) by simp
  next
    case (Suc k)
    then show ?case using assms(2) [of k "fold f [0..<k] s0"] by simp
  qed
  then show ?thesis by simp
qed

lemma cpiPropose_empty:
  "pats = None \<or> pats = Some [] \<Longrightarrow> cpiPropose l c r pats = 0"
  by (auto simp: cpiPropose_def)

lemma flat_phaseA_cell_idle:
  assumes pats: "pats = None \<or> pats = Some []"
    and nonneg: "\<forall>n. 0 \<le> draws g n"
    and hold: "int b + 1 < h"
    and k: "k < sz"
    and inv: "idle sz b g k s"
  shows "idle sz b g (Suc k) (flat_phaseA_cell sz prev pats 0 h k s)"
proof -
  let ?c = "if truthy (prev ! k) then consecOnes s ! k + 1 else 0"
  from inv k have ck: "consecOnes s ! k \<le> b"
    by (auto simp: idle_def)
  then have le: "?c \<le> b + 1" by simp
  with hold have nohold: "\<not> h \<le> int ?c" by simp
  from nonneg inv have nodraw: "\<not> draws (rnd s) (drawn (rnd s)) < 0"
    by (simp add: idle_def not_less)
  have step: "flat_phaseA_cell sz prev pats 0 h k s =
      \<lparr>proposal = proposal s, reflection = reflection s,
       consecOnes = (consecOnes s)[k := ?c], rnd = (rnd s)\<lparr>drawn := drawn (rnd s) + 1\<rparr>\<rparr>"
    using nohold nodraw
    by (simp add: flat_phaseA_cell_def Let_def cpiPropose_empty [OF pats] truthy_def random_def)
  have "\<forall>i < sz. ((consecOnes s)[k := ?c]) ! i \<le> (if i < Suc k then b + 1 else b)"
  proof (intro allI impI)
    fix i assume i: "i < sz"
    show "((consecOnes s)[k := ?c]) ! i \<le> (if i < Suc k then b + 1 else b)"
    proof (cases "i = k")
      case True
      with inv i le show ?thesis by (simp add: idle_def)
    next
      case False
      with inv i have "consecOnes s ! i \<le> (if i < k then b + 1 else b)"
        by (simp add: idle_def)
      with False show ?thesis by (auto split: if_splits)
    qed
  qed
  with inv show ?thesis
    by (simp add: step idle_def)
qed

lemma flat_phaseA_idle:
  assumes pats: "pats = None \<or> pats = Some []"
    and nonneg: "\<forall>n. 0 \<le> draws g n"
    and hold: "int b + 1 < h"
    and len: "length consec = sz"
    and bound: "\<forall>i < sz. consec ! i \<le> b"
  shows "idle sz b g sz (flat_phaseA sz prev pats 0 h consec g)"
  unfolding flat_phaseA_def
proof (rule fold_upt_invariant [where P = "idle sz b g"])
  show "idle sz b g 0 \<lparr>proposal = replicate sz 0, reflection = replicate sz 0,
                        consecOnes = consec, rnd = g\<rparr>"
    using len bound by (simp add: idle_def)
next
  fix k s
  assume "k < sz" "idle sz b g k s"
  then show "idle sz b g (Suc k) (flat_phaseA_cell sz prev pats 0 h k s)"
    by (rule flat_phaseA_cell_idle [OF pats nonneg hold])
qed

lemma flat_phaseB_idle:
  "flat_phaseB f sz prev (replicate sz 0) (replicate sz 0) = flat_next f sz prev"
  by (simp add: flat_phaseB_def flat_next_def truthy_def)

lemma flat_loop_idle:
  assumes pats: "pats = None \<or> pats = Some []"
  shows "\<forall>n. 0 \<le> draws g n \<Longrightarrow> length consec = sz \<Longrightarrow> \<forall>i < sz. consec ! i \<le> b \<Longrightarrow>
         n = 0 \<or> int (b + n) < h \<Longrightarrow>
         fst (flat_runISVariant_loop f sz pats 0 h n prev consec g) = flat_runCA_loop f sz n prev"
proof (induction n arbitrary: prev consec g b)
  case 0
  then show ?case by simp
next
  case (Suc n)
  let ?a = "flat_phaseA sz prev pats 0 h consec g"
  from Suc.prems(4) have h1: "int b + 1 < h" by simp
  have idle: "idle sz b g sz ?a"
    by (rule flat_phaseA_idle [OF pats Suc.prems(1) h1 Suc.prems(2,3)])
  then have pr: "proposal ?a = replicate sz 0" "reflection ?a = replicate sz 0"
    and len: "length (consecOnes ?a) = sz"
    and bd: "\<forall>i < sz. consecOnes ?a ! i \<le> b + 1"
    and dr: "draws (rnd ?a) = draws g"
    by (simp_all add: idle_def)
  from dr Suc.prems(1) have nn: "\<forall>n. 0 \<le> draws (rnd ?a) n" by simp
  from Suc.prems(4) have h2: "n = 0 \<or> int (b + 1 + n) < h" by auto
  have IH: "fst (flat_runISVariant_loop f sz pats 0 h n (flat_next f sz prev) (consecOnes ?a) (rnd ?a))
            = flat_runCA_loop f sz n (flat_next f sz prev)"
    by (rule Suc.IH [OF nn len bd h2])
  show ?case
    using IH by (simp add: Let_def pr flat_phaseB_idle case_prod_beta)
qed

lemma random_init_draws:
  "draws (snd (fold (\<lambda>i (row, g). let (d, g') = random g
                                   in (js_assign row i (if d < 1 / 10 then 1 else 0), g'))
                 [0..<sz] (row0, g))) = draws g"
  by (rule fold_upt_invariant [where P = "\<lambda>k rg. draws (snd rg) = draws g"])
     (simp_all add: random_def case_prod_beta)

lemma flat_initRow_draws: "draws (snd (flat_initRow sz m g)) = draws g"
  by (cases "m = ''single''")
     (simp_all only: simp_thms flat_initRow_def if_True if_False snd_conv random_init_draws)

lemma cpux_initRow_draws: "draws (snd (cpux_initRow sz m g)) = draws g"
  by (cases "m = ''single''"; cases "m = ''random''")
     (simp_all only: simp_thms cpux_initRow_def if_True if_False snd_conv random_init_draws)

lemma DN_CPI_cell_idle:
  "0 \<le> draws g (drawn g) \<Longrightarrow>
     DN_CPI_cell [] 0 t prev oid i (v, g) = (v, g\<lparr>drawn := drawn g + 1\<rparr>)"
  by (simp add: DN_CPI_cell_def random_def not_less split: prod.splits)

lemma DN_CPI_idle:
  assumes "\<forall>n. 0 \<le> draws g n"
  shows "DN_CPI_emitIntentions [] 0 t prev oid v g = (v, g\<lparr>drawn := drawn g + length prev\<rparr>)"
  unfolding DN_CPI_emitIntentions_def
proof (rule fold_upt_invariant [where P = "\<lambda>k vg. vg = (v, g\<lparr>drawn := drawn g + k\<rparr>)"])
  show "(v, g) = (v, g\<lparr>drawn := drawn g + 0\<rparr>)" by simp
next
  fix k vg
  assume "k < length prev" and vg: "vg = (v, g\<lparr>drawn := drawn g + k\<rparr>)"
  have "0 \<le> draws (g\<lparr>drawn := drawn g + k\<rparr>) (drawn (g\<lparr>drawn := drawn g + k\<rparr>))"
    using assms by simp
  from DN_CPI_cell_idle [OF this] vg
  show "DN_CPI_cell [] 0 t prev oid k vg = (v, g\<lparr>drawn := drawn g + Suc k\<rparr>)"
    by simp
qed

lemma DN_REFLECT_cell_idle:
  assumes hold: "int b + 1 < h"
    and k: "k < length prev"
    and len: "length cs = length prev"
    and bound: "\<forall>i < length prev. cs ! i \<le> (if i < k then b + 1 else b)"
  shows "\<exists>cs'. DN_REFLECT_cell h t prev oid k (v, cs) = (v, cs') \<and> length cs' = length prev
           \<and> (\<forall>i < length prev. cs' ! i \<le> (if i < Suc k then b + 1 else b))"
proof -
  let ?c = "if truthy (prev ! k) then cs ! k + 1 else 0"
  from bound k have "cs ! k \<le> b" by auto
  then have le: "?c \<le> b + 1" by simp
  with hold have nohold: "\<not> h \<le> int ?c" by simp
  have step: "DN_REFLECT_cell h t prev oid k (v, cs) = (v, cs[k := ?c])"
    using nohold by (simp add: DN_REFLECT_cell_def Let_def)
  have "\<forall>i < length prev. (cs[k := ?c]) ! i \<le> (if i < Suc k then b + 1 else b)"
  proof (intro allI impI)
    fix i assume i: "i < length prev"
    show "(cs[k := ?c]) ! i \<le> (if i < Suc k then b + 1 else b)"
    proof (cases "i = k")
      case True
      with len i le show ?thesis by simp
    next
      case False
      with bound i have "cs ! i \<le> (if i < k then b + 1 else b)" by simp
      with False show ?thesis by (auto split: if_splits)
    qed
  qed
  with step len show ?thesis by simp
qed

lemma DN_REFLECT_idle:
  assumes hold: "int b + 1 < h" and calm: "calm (length prev) b memory"
  shows "\<exists>memory'. DN_REFLECT_emitIntentions h t prev oid v memory = (v, memory')
           \<and> calm (length prev) (b + 1) memory'"
proof -
  let ?cs = "case memory of None \<Rightarrow> replicate (length prev) 0 | Some cs \<Rightarrow> cs"
  let ?P = "\<lambda>k vc. \<exists>cs'. vc = (v, cs') \<and> length cs' = length prev
              \<and> (\<forall>i < length prev. cs' ! i \<le> (if i < k then b + 1 else b))"
  have start: "?P 0 (v, ?cs)"
    using calm by (auto simp: calm_def split: option.splits)
  have "?P (length prev) (fold (DN_REFLECT_cell h t prev oid) [0..<length prev] (v, ?cs))"
  proof (rule fold_upt_invariant [where P = ?P, OF start])
    fix k vc
    assume k: "k < length prev" and "?P k vc"
    then obtain cs' where vc: "vc = (v, cs')" and len: "length cs' = length prev"
      and bd: "\<forall>i < length prev. cs' ! i \<le> (if i < k then b + 1 else b)"
      by blast
    from DN_REFLECT_cell_idle [OF hold k len bd] vc
    show "?P (Suc k) (DN_REFLECT_cell h t prev oid k vc)"
      by simp
  qed
  then obtain cs' where
    f: "fold (DN_REFLECT_cell h t prev oid) [0..<length prev] (v, ?cs) = (v, cs')"
    and len: "length cs' = length prev" and bd: "\<forall>i < length prev. cs' ! i \<le> b + 1"
    by auto
  have "DN_REFLECT_emitIntentions h t prev oid v memory = (v, Some cs')"
    by (simp add: DN_REFLECT_emitIntentions_def Let_def f)
  moreover have "calm (length prev) (b + 1) (Some cs')"
    using len bd by (simp add: calm_def)
  ultimately show ?thesis by blast
qed

lemma mergeOverride_zero: "mergeOverride b (replicate n 0) = b"
proof -
  have "mergeOverride b (replicate n 0) = map (\<lambda>i. b ! i) [0..<length b]"
    by (auto simp: mergeOverride_def truthy_def)
  then show ?thesis by (simp add: map_nth)
qed

lemma length_applyBaseRule: "length (applyBaseRule rn prev) = length prev"
  by (simp add: applyBaseRule_def)

lemma cpux_pass_idle:
  assumes nonneg: "\<forall>n. 0 \<le> draws (source s) n"
    and quiet: "incomingIntentions (visitor s) = []" "pulseLedger s = []"
    and calm: "calm (length prev) b (reflectMemory s)"
    and hold: "int b + 1 < h"
  shows "\<exists>s'. cpux_pass rn sz [] 0 h t prev s = (applyBaseRule rn prev, s')
           \<and> (\<forall>n. 0 \<le> draws (source s') n)
           \<and> incomingIntentions (visitor s') = [] \<and> pulseLedger s' = []
           \<and> calm (length prev) (b + 1) (reflectMemory s')"
proof -
  let ?v1 = "(visitor s)\<lparr>fieldSnapshot := Some prev\<rparr>"
  have cpi: "DN_CPI_emitIntentions [] 0 t prev ''O_IS'' ?v1 (source s)
               = (?v1, (source s)\<lparr>drawn := drawn (source s) + length prev\<rparr>)"
    by (rule DN_CPI_idle [OF nonneg])
  from DN_REFLECT_idle [OF hold calm, of t "''O_IS''" ?v1]
  obtain memory' where
    rf: "DN_REFLECT_emitIntentions h t prev ''O_IS'' ?v1 (reflectMemory s) = (?v1, memory')"
    and calm': "calm (length prev) (b + 1) memory'"
    by blast
  have "cpux_pass rn sz [] 0 h t prev s =
          (applyBaseRule rn prev,
           \<lparr>visitor = ?v1\<lparr>incomingIntentions := []\<rparr>, pulseLedger = [], reflectMemory = memory',
            source = (source s)\<lparr>drawn := drawn (source s) + length prev\<rparr>\<rparr>)"
    using quiet
    by (simp add: cpux_pass_def Let_def cpi rf absorbIntentionsIntoLedger_def
        buildOverrideMapForPass_def mergeOverride_zero)
  with nonneg calm' show ?thesis by simp
qed

lemma cpux_loop_idle:
  "\<forall>n. 0 \<le> draws (source s) n \<Longrightarrow> incomingIntentions (visitor s) = [] \<Longrightarrow>
   pulseLedger s = [] \<Longrightarrow> calm (length prev) b (reflectMemory s) \<Longrightarrow>
   n = 0 \<or> int (b + n) < h \<Longrightarrow>
   fst (runCPUX_ISVariant_loop rn sz [] 0 h t n prev s) = runCPUX_CA_loop rn n prev
   \<and> pulseLedger (snd (runCPUX_ISVariant_loop rn sz [] 0 h t n prev s)) = []"
proof (induction n arbitrary: prev s b t)
  case 0
  then show ?case by simp
next
  case (Suc n)
  from Suc.prems(5) have h1: "int b + 1 < h" by simp
  from cpux_pass_idle [OF Suc.prems(1,2,3,4) h1, of rn sz t]
  obtain s' where p: "cpux_pass rn sz [] 0 h t prev s = (applyBaseRule rn prev, s')"
    and nn: "\<forall>n. 0 \<le> draws (source s') n"
    and q: "incomingIntentions (visitor s') = []" "pulseLedger s' = []"
    and c: "calm (length prev) (b + 1) (reflectMemory s')"
    by blast
  from c have c': "calm (length (applyBaseRule rn prev)) (b + 1) (reflectMemory s')"
    by (simp add: length_applyBaseRule)
  from Suc.prems(5) have h2: "n = 0 \<or> int (b + 1 + n) < h" by auto
  from Suc.IH [OF nn q c' h2, of "t + 1"] show ?case
    by (simp add: p Let_def case_prod_beta)
qed

lemma patternSet_empty:
  "cpiPatterns = None \<or> cpiPatterns = Some [] \<Longrightarrow> patternSet cpiPatterns = []"
  by (auto simp: patternSet_def)

text \<open>
  C4. Disabling law. With an empty pattern set, injection probability 0 and a hold of at
  least the step count, and with the same seed row as the baseline run, the
  Intention-Space run produces the grid of the baseline run, row by row and cell by cell,
  in the flat script (\<open>runISVariant\<close> against \<open>runCA\<close>) and in the ledger script
  (\<open>runCPUX_ISVariant\<close> against \<open>runCPUX_CA\<close>); and the ledger of the whole run is empty:
  no source emitted a proposal. The draws of the random source lie in [0,1), of which the
  lower bound is used. In the flat script, where proposals are marks in two arrays, both
  arrays stay all zero at every step (\<open>flat_phaseA_idle\<close>).
\<close>

theorem disabling_law:
  assumes "\<forall>n. 0 \<le> draws g n"
    and "cpiPatterns = None \<or> cpiPatterns = Some []"
    and "int steps \<le> reflectionHold"
    and "fst (flat_initRow sz init g') = fst (flat_initRow sz init g)"
    and "fst (cpux_initRow sz init g') = fst (cpux_initRow sz init g)"
  shows "fst (flat_runISVariant rule sz steps init cpiPatterns 0 reflectionHold g)
           = fst (flat_runCA rule sz steps init g')
         \<and> fst (runCPUX_ISVariant rule sz steps init cpiPatterns 0 reflectionHold g)
           = fst (runCPUX_CA rule sz steps init g')
         \<and> fst (snd (runCPUX_ISVariant rule sz steps init cpiPatterns 0 reflectionHold g)) = []"
proof -
  have h: "steps - 1 = 0 \<or> int (0 + (steps - 1)) < reflectionHold"
    using assms(3) by (cases steps) auto
  have nn1: "\<forall>n. 0 \<le> draws (snd (flat_initRow sz init g)) n"
    using assms(1) by (simp add: flat_initRow_draws)
  have nn2: "\<forall>n. 0 \<le> draws (snd (cpux_initRow sz init g)) n"
    using assms(1) by (simp add: cpux_initRow_draws)
  have flat: "fst (flat_runISVariant_loop (ruleFn rule) sz cpiPatterns 0 reflectionHold (steps - 1)
                     (fst (flat_initRow sz init g)) (replicate sz 0) (snd (flat_initRow sz init g)))
              = flat_runCA_loop (ruleFn rule) sz (steps - 1) (fst (flat_initRow sz init g))"
    by (rule flat_loop_idle [OF assms(2) nn1 _ _ h]) simp_all
  let ?s0 = "\<lparr>visitor = makeVisitor, pulseLedger = [], reflectMemory = None,
              source = snd (cpux_initRow sz init g)\<rparr>"
  have cp: "fst (runCPUX_ISVariant_loop rule sz [] 0 reflectionHold 1 (steps - 1)
                   (fst (cpux_initRow sz init g)) ?s0)
              = runCPUX_CA_loop rule (steps - 1) (fst (cpux_initRow sz init g))
            \<and> pulseLedger (snd (runCPUX_ISVariant_loop rule sz [] 0 reflectionHold 1 (steps - 1)
                   (fst (cpux_initRow sz init g)) ?s0)) = []"
    by (rule cpux_loop_idle [where b = 0]) (use nn2 h in \<open>simp_all add: makeVisitor_def calm_def\<close>)
  show ?thesis
    using flat cp assms(4,5)
    by (simp add: flat_runISVariant_def flat_runCA_def runCPUX_ISVariant_def runCPUX_CA_def
        patternSet_empty [OF assms(2)] case_prod_beta Let_def)
qed

lemma grid_rule30: "fst (flat_runCA 30 3 3 ''single'' (constantSource (1 / 2)))
    = [[0, 1, 0], [1, 1, 1], [0, 0, 0]]"
  by code_simp

theorem disabling_law_witness:
  "fst (flat_runISVariant 30 3 3 ''single'' (Some []) 0 3 (constantSource (1 / 2)))
     = [[0, 1, 0], [1, 1, 1], [0, 0, 0]]
   \<and> fst (runCPUX_ISVariant 30 3 3 ''single'' (Some []) 0 3 (constantSource (1 / 2)))
     = fst (runCPUX_CA 30 3 3 ''single'' (constantSource (1 / 2)))
   \<and> fst (snd (runCPUX_ISVariant 30 3 3 ''single'' (Some []) 0 3 (constantSource (1 / 2)))) = []"
proof -
  have h1: "\<forall>n. 0 \<le> draws (constantSource (1 / 2)) n"
    by (simp add: constantSource_def)
  have h2: "Some [] = None \<or> Some [] = Some ([] :: string list)" by simp
  have h3: "int 3 \<le> 3" by simp
  show ?thesis
    using disabling_law [where sz = 3 and init = "''single''" and rule = 30
        and g' = "constantSource (1 / 2)", OF h1 h2 h3 refl refl] grid_rule30
    by simp
qed

subsection \<open>Seeding\<close>

lemma show_nat_nonempty: "show_nat n \<noteq> []"
  by (subst show_nat.simps) simp

lemma digit_char_inj:
  assumes "a < 10" "b < 10" "char_of (48 + a) = (char_of (48 + b) :: char)"
  shows "a = (b :: nat)"
proof -
  from assms(3) have "(of_char (char_of (48 + a) :: char) :: nat) = of_char (char_of (48 + b) :: char)"
    by simp
  then have "(48 + a) mod 256 = (48 + b) mod 256"
    by (simp only: of_char_of)
  with assms(1,2) show ?thesis
    by simp
qed

lemma show_nat_inj: "show_nat n = show_nat m \<Longrightarrow> n = m"
proof (induction n arbitrary: m rule: show_nat.induct)
  case (1 n)
  show ?case
  proof (cases "n < 10")
    case n: True
    show ?thesis
    proof (cases "m < 10")
      case True
      with n "1.prems" have "char_of (48 + n) = (char_of (48 + m) :: char)"
        by (simp add: show_nat.simps [of n] show_nat.simps [of m])
      with n True show ?thesis by (rule digit_char_inj)
    next
      case False
      with n "1.prems" have "show_nat (m div 10) = []"
        by (simp add: show_nat.simps [of n] show_nat.simps [of m])
      then show ?thesis by (simp add: show_nat_nonempty)
    qed
  next
    case n: False
    show ?thesis
    proof (cases "m < 10")
      case True
      with n "1.prems" have "show_nat (n div 10) = []"
        by (simp add: show_nat.simps [of n] show_nat.simps [of m])
      then show ?thesis by (simp add: show_nat_nonempty)
    next
      case False
      with n "1.prems" have eq: "show_nat (n div 10) = show_nat (m div 10)"
        and d: "char_of (48 + n mod 10) = (char_of (48 + m mod 10) :: char)"
        by (simp_all add: show_nat.simps [of n] show_nat.simps [of m])
      from "1.IH" [OF n eq] have q: "n div 10 = m div 10" .
      have "n mod 10 = m mod 10"
        by (rule digit_char_inj [OF _ _ d]) simp_all
      with q show ?thesis
        by (metis div_mult_mod_eq)
    qed
  qed
qed

lemma cell_id_inj: "cell_id i = cell_id j \<Longrightarrow> i = j"
  by (simp add: cell_id_def show_nat_inj)

lemma pulseMap_at:
  "fold (\<lambda>i m. m(cell_id i \<mapsto> Q i)) xs m0 (cell_id j) =
     (if j \<in> set xs then Some (Q j) else m0 (cell_id j))"
  by (induction xs arbitrary: m0) (auto dest: cell_id_inj)

lemma snapshot_pulseMap:
  "snapshotRow (setNextState (new_Field sz)
      (fold (\<lambda>i m. m(cell_id i \<mapsto> initPulse i (v i))) [0..<sz] Map.empty)) = map v [0..<sz]"
  by (simp add: snapshotRow_def setNextState_def new_Field_def readCell_def pulseMap_at
      initPulse_def)


lemma sparseRow_Suc:
  "sparseRow g (Suc k) = sparseRow g k @ [if draws g (drawn g + k) < 1 / 10 then 1 else 0]"
  by (simp add: sparseRow_def)

lemma length_sparseRow: "length (sparseRow g k) = k"
  by (simp add: sparseRow_def)

lemma random_init_array:
  "fold (\<lambda>i (row, g). let (d, g') = random g
                       in (js_assign row i (if d < 1 / 10 then 1 else 0), g'))
     [0..<sz] (replicate sz 0, g) = (sparseRow g sz, g\<lparr>drawn := drawn g + sz\<rparr>)"
proof -
  let ?P = "\<lambda>k rg. rg = (sparseRow g k @ replicate (sz - k) 0, g\<lparr>drawn := drawn g + k\<rparr>)"
  have "?P sz (fold (\<lambda>i (row, g). let (d, g') = random g
                       in (js_assign row i (if d < 1 / 10 then 1 else 0), g'))
     [0..<sz] (replicate sz 0, g))"
  proof (rule fold_upt_invariant [where P = ?P])
    show "?P 0 (replicate sz 0, g)"
      by (simp add: sparseRow_def)
  next
    fix k rg
    assume k: "k < sz" and rg: "?P k rg"
    have r: "replicate (sz - k) (0::int) = 0 # replicate (sz - Suc k) 0"
      using k by (metis Suc_diff_Suc replicate_Suc)
    have "js_assign (sparseRow g k @ replicate (sz - k) 0) k x
            = sparseRow g k @ x # replicate (sz - Suc k) 0" for x
      using k by (simp add: js_assign_def length_sparseRow list_update_append r)
    then show "?P (Suc k) ((\<lambda>(row, g). let (d, g') = random g
                       in (js_assign row k (if d < 1 / 10 then 1 else 0), g')) rg)"
      by (simp add: rg random_def sparseRow_Suc)
  qed
  then show ?thesis by simp
qed

lemma random_init_map:
  "fold (\<lambda>i (m, g). let (d, g') = random g
                     in (m(cell_id i \<mapsto> initPulse i (if d < 1 / 10 then 1 else 0)), g'))
     [0..<sz] (Map.empty, g)
   = (fold (\<lambda>i m. m(cell_id i \<mapsto> initPulse i (if draws g (drawn g + i) < 1 / 10 then 1 else 0)))
        [0..<sz] Map.empty, g\<lparr>drawn := drawn g + sz\<rparr>)"
proof -
  let ?Q = "\<lambda>i. initPulse i (if draws g (drawn g + i) < 1 / 10 then 1 else 0)"
  let ?P = "\<lambda>k mg. mg = (fold (\<lambda>i m. m(cell_id i \<mapsto> ?Q i)) [0..<k] Map.empty,
                          g\<lparr>drawn := drawn g + k\<rparr>)"
  have "?P sz (fold (\<lambda>i (m, g). let (d, g') = random g
                     in (m(cell_id i \<mapsto> initPulse i (if d < 1 / 10 then 1 else 0)), g'))
     [0..<sz] (Map.empty, g))"
    by (rule fold_upt_invariant [where P = ?P]) (simp_all add: random_def)
  then show ?thesis by simp
qed

lemma flat_initRow_single: "flat_initRow sz ''single'' g = (js_assign (replicate sz 0) (sz div 2) 1, g)"
  by (simp add: flat_initRow_def)

lemma flat_initRow_other:
  "m \<noteq> ''single'' \<Longrightarrow> flat_initRow sz m g = (sparseRow g sz, g\<lparr>drawn := drawn g + sz\<rparr>)"
  by (simp only: flat_initRow_def if_False random_init_array)

lemma cpux_initRow_random:
  "cpux_initRow sz ''random'' g = (sparseRow g sz, g\<lparr>drawn := drawn g + sz\<rparr>)"
proof -
  have "''random'' \<noteq> ''single''" by simp
  then show ?thesis
    by (simp only: cpux_initRow_def if_False if_True simp_thms random_init_array)
qed

lemma initRow_random:
  "initRow sz ''random'' g =
     (fold (\<lambda>i m. m(cell_id i \<mapsto> initPulse i (if draws g (drawn g + i) < 1 / 10 then 1 else 0)))
        [0..<sz] Map.empty, g\<lparr>drawn := drawn g + sz\<rparr>)"
proof -
  have "''random'' \<noteq> ''single''" by simp
  then show ?thesis
    by (simp only: initRow_def if_False if_True simp_thms random_init_map)
qed

lemma js_assign_centre:
  "0 < sz \<Longrightarrow> js_assign (replicate sz 0) (sz div 2) 1 = (replicate sz 0)[sz div 2 := 1]"
  by (simp add: js_assign_def)

lemma single_row: "map (\<lambda>i. if i = c then 1 else 0 :: int) [0..<sz] = (replicate sz 0)[c := 1]"
  by (rule nth_equalityI) (auto simp: nth_list_update)

text \<open>
  C8 as stated does not hold for the flat script: its \<open>initRow\<close> knows \<open>"single"\<close> and
  treats every other mode as sparse-random, so no mode selects the all-zero row. With a
  source whose draws are all 0, a mode other than \<open>"single"\<close> seeds three cells with 1.
\<close>

theorem flat_initRow_no_zero_policy_counterexample:
  "fst (flat_initRow 3 ''zero'' (constantSource 0)) = [1, 1, 1]"
  by code_simp

text \<open>
  C8, amended. In the ledger and the class-based script the selector has three policies:
  \<open>'single'\<close> (the centre cell is 1), \<open>'random'\<close> (each cell drawn with density 0.1, one
  draw per cell) and, for every other mode, the all-zero row (no draw). In the flat script
  it has two: \<open>"single"\<close>, and sparse-random for every other mode.
\<close>

theorem seeding_policies:
  "(m \<noteq> ''single'' \<and> m \<noteq> ''random'' \<longrightarrow>
      cpux_initRow sz m g = (replicate sz 0, g) \<and> snd (initRow sz m g) = g
      \<and> snapshotRow (setNextState (new_Field sz) (fst (initRow sz m g))) = replicate sz 0)
   \<and> (0 < sz \<longrightarrow>
      cpux_initRow sz ''single'' g = ((replicate sz 0)[sz div 2 := 1], g)
      \<and> flat_initRow sz ''single'' g = ((replicate sz 0)[sz div 2 := 1], g)
      \<and> snd (initRow sz ''single'' g) = g
      \<and> snapshotRow (setNextState (new_Field sz) (fst (initRow sz ''single'' g)))
          = (replicate sz 0)[sz div 2 := 1])
   \<and> cpux_initRow sz ''random'' g = (sparseRow g sz, g\<lparr>drawn := drawn g + sz\<rparr>)
   \<and> snd (initRow sz ''random'' g) = g\<lparr>drawn := drawn g + sz\<rparr>
   \<and> snapshotRow (setNextState (new_Field sz) (fst (initRow sz ''random'' g))) = sparseRow g sz
   \<and> (m \<noteq> ''single'' \<longrightarrow>
      flat_initRow sz m g = (sparseRow g sz, g\<lparr>drawn := drawn g + sz\<rparr>))"
proof -
  have zero: "m \<noteq> ''single'' \<and> m \<noteq> ''random'' \<longrightarrow>
      cpux_initRow sz m g = (replicate sz 0, g) \<and> snd (initRow sz m g) = g
      \<and> snapshotRow (setNextState (new_Field sz) (fst (initRow sz m g))) = replicate sz 0"
    by (simp add: cpux_initRow_def initRow_def snapshot_pulseMap map_replicate_const)
  have single: "0 < sz \<longrightarrow>
      cpux_initRow sz ''single'' g = ((replicate sz 0)[sz div 2 := 1], g)
      \<and> flat_initRow sz ''single'' g = ((replicate sz 0)[sz div 2 := 1], g)
      \<and> snd (initRow sz ''single'' g) = g
      \<and> snapshotRow (setNextState (new_Field sz) (fst (initRow sz ''single'' g)))
          = (replicate sz 0)[sz div 2 := 1]"
    by (simp add: cpux_initRow_def flat_initRow_def initRow_def js_assign_centre
        snapshot_pulseMap single_row)
  have random: "snapshotRow (setNextState (new_Field sz) (fst (initRow sz ''random'' g)))
                  = sparseRow g sz"
    by (simp add: initRow_random snapshot_pulseMap sparseRow_def)
  show ?thesis
    using zero single random
    by (simp add: cpux_initRow_random initRow_random flat_initRow_other)
qed

theorem seeding_policies_witness:
  "fst (cpux_initRow 3 ''zero'' (constantSource 0)) = [0, 0, 0]
   \<and> snapshotRow (setNextState (new_Field 3) (fst (initRow 3 ''zero'' (constantSource 0))))
       = [0, 0, 0]
   \<and> fst (cpux_initRow 3 ''single'' (constantSource 0)) = [0, 1, 0]
   \<and> fst (flat_initRow 3 ''zero'' (constantSource 0)) = sparseRow (constantSource 0) 3"
  using seeding_policies [of "''zero''" 3 "constantSource 0"]
  by (simp add: numeral_3_eq_3)

subsection \<open>The values the nodes propose\<close>

text \<open>
  Every pulse a node emits under a kind other than \<open>baseline\<close> has value 1, so the
  proposals of a non-baseline kind that one pass collects for a cell always agree.
\<close>

lemma DN_cpi_values:
  "it \<in> set (DN_cpi_emitIntentions d oid pats f t) \<Longrightarrow> p \<in> set (pulses it) \<Longrightarrow> pvalue p = 1"
  by (auto simp: DN_cpi_emitIntentions_def Let_def split: if_splits)

lemma DN_inject_values:
  assumes "it \<in> set (fst (DN_inject_emitIntentions d oid pr f t g))" and "p \<in> set (pulses it)"
  shows "pvalue p = 1"
proof -
  let ?step = "\<lambda>i (ps, g). let (x, g') = random g
                 in if x < pr
                    then (ps @ [\<lparr>pid = cell_id i, pvalue = 1, response = None,
                                 meta = [(''src'', Str ''DN_inject''),
                                         (''passIndex'', Num (int t))]\<rparr>], g')
                    else (ps, g')"
  have "\<forall>q\<in>set (fst (fold ?step [0..<fsize f] ([], g))). pvalue q = 1"
    by (rule fold_upt_invariant [where P = "\<lambda>k pg. \<forall>q\<in>set (fst pg). pvalue q = 1"])
       (auto simp: case_prod_beta Let_def)
  with assms show ?thesis
    by (auto simp: DN_inject_emitIntentions_def case_prod_beta Let_def split: if_splits)
qed

lemma DN_reflect_values:
  assumes "it \<in> set (fst (DN_reflect_emitIntentions d oid h f t cs))" and "p \<in> set (pulses it)"
  shows "pvalue p = 1"
proof -
  have "\<forall>q\<in>set (fst (fold (DN_reflect_cell h f t) [0..<fsize f] ([], cs))). pvalue q = 1"
    by (rule fold_upt_invariant [where P = "\<lambda>k pc. \<forall>q\<in>set (fst pc). pvalue q = 1"])
       (auto simp: DN_reflect_cell_def case_prod_beta Let_def)
  with assms show ?thesis
    by (auto simp: DN_reflect_emitIntentions_def case_prod_beta Let_def split: if_splits)
qed

lemma emitIntentions_values:
  "it \<in> set (fst (emitIntentions f t d g)) \<Longrightarrow> kind it \<noteq> ''baseline'' \<Longrightarrow>
   p \<in> set (pulses it) \<Longrightarrow> pvalue p = 1"
proof (cases d)
  case (DN_rule x1 x2 x3)
  assume "it \<in> set (fst (emitIntentions f t d g))" "kind it \<noteq> ''baseline''"
  with DN_rule show ?thesis
    by (simp add: DN_rule_emitIntentions_def Let_def)
next
  case (DN_cpi x1 x2 x3)
  assume "it \<in> set (fst (emitIntentions f t d g))" "p \<in> set (pulses it)"
  with DN_cpi show ?thesis
    by (simp add: DN_cpi_values)
next
  case (DN_inject x1 x2 x3)
  assume "it \<in> set (fst (emitIntentions f t d g))" "p \<in> set (pulses it)"
  with DN_inject show ?thesis
    by (auto simp: case_prod_beta dest: DN_inject_values)
next
  case (DN_reflect x1 x2 x3 x4)
  assume "it \<in> set (fst (emitIntentions f t d g))" "p \<in> set (pulses it)"
  with DN_reflect show ?thesis
    by (auto simp: case_prod_beta dest: DN_reflect_values)
qed

lemma visitNodes_values:
  "it \<in> set (fst (visitNodes f t ds g)) \<Longrightarrow> kind it \<noteq> ''baseline'' \<Longrightarrow>
   p \<in> set (pulses it) \<Longrightarrow> pvalue p = 1"
proof (induction ds arbitrary: g)
  case Nil
  then show ?case by simp
next
  case (Cons d ds)
  from Cons.prems(1) have
    "it \<in> set (fst (emitIntentions f t d g))
     \<or> it \<in> set (fst (visitNodes f t ds (snd (snd (emitIntentions f t d g)))))"
    by (auto simp: case_prod_beta routeIntention_def)
  then show ?case
    using Cons.IH Cons.prems(2,3) emitIntentions_values by blast
qed

lemma emitted_proposals_agree:
  "(k, v) \<in> set (proposals oid (fst (visitNodes f t ds g)) c) \<Longrightarrow> k \<noteq> ''baseline'' \<Longrightarrow> v = 1"
  by (auto simp: proposals_def dest: visitNodes_values split: if_splits)

end
